theory Spec2Isabelle
  imports Complex_Main "HOL-Library.Word" "HOL-Library.Monad_Syntax" "HOL-Library.Multiset"
begin

section \<open>The cutter-location surface of OpenCAMlib (src/algo/clsurface.hpp)\<close>

text \<open>
  The development embeds the class \<open>CutterLocationSurface\<close> and the property structs
  \<open>VertexProps\<close>, \<open>EdgeProps\<close> and \<open>FaceProps\<close> of \<open>clsurface.hpp\<close>.
  Two headers the file includes are not among the sources: \<open>point.hpp\<close> (the type
  \<open>Point\<close>) and \<open>halfedgediagram.hpp\<close> (the container \<open>hedi::HEDIGraph\<close>). They are
  modelled below, each under a comment that says so.

  Conventions.
  \<^item> A \<open>double\<close> is an ideal real number: rounding is not modelled.
  \<^item> The C++ \<open>int\<close> of the vertex counter is a \<open>32 word\<close>.
  \<^item> A value the C++ leaves uninitialised (the members of \<open>EdgeProps()\<close>, the field
    \<open>min_sampling\<close>) is an \<open>option\<close>, \<open>None\<close> until it is assigned.
  \<^item> An operation that aborts (a failed \<open>assert\<close>, a descriptor that names nothing, a
    value read before it is assigned) returns \<open>None\<close>.
  \<^item> The static member \<open>VertexProps::count\<close> is threaded through every operation that
    constructs a vertex, as an explicit argument and result.
\<close>

subsection \<open>Points\<close>

text \<open>
  Modelled from the spec: \<open>point.hpp\<close> is missing. The spec gives a vertex a 3D position
  (x, y, z as floating point); the code uses the constructor \<open>Point(x,y,z)\<close>, the default
  constructor (taken to be the origin, as the accumulation of the center by \<open>+=\<close> with the
  comment "average of four corners" presupposes), the sum of two points and the product of
  a scalar and a point.
\<close>

datatype Point = Point (Point_x: real) (Point_y: real) (Point_z: real)

definition Point_default :: Point where
  "Point_default = Point 0 0 0"

fun Point_add :: "Point \<Rightarrow> Point \<Rightarrow> Point" where
  "Point_add (Point a b c) (Point a' b' c') = Point (a + a') (b + b') (c + c')"

fun Point_scale :: "real \<Rightarrow> Point \<Rightarrow> Point" where
  "Point_scale k (Point a b c) = Point (k * a) (k * b) (k * c)"

subsection \<open>Property structs\<close>

type_synonym Vertex = nat
type_synonym Edge = nat
type_synonym Face = nat

record VertexProps =
  position :: Point
  index :: "32 word"

text \<open>
  \<open>VertexProps()\<close>: the position is default-constructed, \<open>init()\<close> takes the index from
  the global counter and increments the counter.
\<close>

definition VertexProps_init :: "32 word \<Rightarrow> VertexProps \<Rightarrow> 32 word \<times> VertexProps" where
  "VertexProps_init cnt vp = (cnt + 1, vp\<lparr>index := cnt\<rparr>)"

definition VertexProps_new :: "32 word \<Rightarrow> 32 word \<times> VertexProps" where
  "VertexProps_new cnt = VertexProps_init cnt \<lparr>position = Point_default, index = 0\<rparr>"

record EdgeProps =
  nxt :: "Edge option"
  twin :: "Edge option"
  face :: "Face option"

text \<open>\<open>EdgeProps() {}\<close> assigns nothing.\<close>

definition EdgeProps_new :: EdgeProps where
  "EdgeProps_new = \<lparr>nxt = None, twin = None, face = None\<rparr>"

record FaceProps =
  idx :: Face
  edge :: "Edge option"

subsection \<open>The half-edge container\<close>

text \<open>
  Modelled from the spec: \<open>halfedgediagram.hpp\<close> (the class \<open>hedi::HEDIGraph\<close> with
  \<open>add_vertex\<close>, \<open>add_face\<close>, \<open>add_edge\<close>, \<open>twin_edges\<close>, \<open>face_edges\<close>, \<open>source\<close>,
  \<open>target\<close>, \<open>insert_vertex_in_edge\<close>, \<open>num_faces\<close>, \<open>num_vertices\<close>, \<open>num_edges\<close> and
  the property access \<open>g[.]\<close>) is missing. The model follows section 4.1 of the spec and
  its design note on arenas: vertices, half-edges and faces live in three index-addressed
  containers, a descriptor is an index, and a removed half-edge leaves an empty slot.
\<close>

record HalfEdge =
  src :: Vertex
  trg :: Vertex
  props :: EdgeProps

record CLSGraph =
  vertices :: "VertexProps list"
  edges :: "HalfEdge option list"
  faces :: "FaceProps list"

definition empty_graph :: CLSGraph where
  "empty_graph = \<lparr>vertices = [], edges = [], faces = []\<rparr>"

definition lookup :: "'a list \<Rightarrow> nat \<Rightarrow> 'a option" where
  "lookup xs i = (if i < length xs then Some (xs ! i) else None)"

definition half_edge :: "CLSGraph \<Rightarrow> Edge \<Rightarrow> HalfEdge option" where
  "half_edge G e = (case lookup (edges G) e of Some (Some h) \<Rightarrow> Some h | _ \<Rightarrow> None)"

definition num_vertices :: "CLSGraph \<Rightarrow> nat" where
  "num_vertices G = length (vertices G)"

definition num_faces :: "CLSGraph \<Rightarrow> nat" where
  "num_faces G = length (faces G)"

definition num_edges :: "CLSGraph \<Rightarrow> nat" where
  "num_edges G = length (filter (\<lambda>h. h \<noteq> None) (edges G))"

text \<open>\<open>addVertex\<close>: creates a vertex and assigns it the next global index. No failure mode.\<close>

definition add_vertex :: "32 word \<Rightarrow> CLSGraph \<Rightarrow> Vertex \<times> 32 word \<times> CLSGraph" where
  "add_vertex cnt G =
     (let (cnt', vp) = VertexProps_new cnt
      in (length (vertices G), cnt', G\<lparr>vertices := vertices G @ [vp]\<rparr>))"

text \<open>\<open>addFace\<close>: creates a face, here without a representative half-edge.\<close>

definition add_face :: "CLSGraph \<Rightarrow> Face \<times> CLSGraph" where
  "add_face G =
     (length (faces G), G\<lparr>faces := faces G @ [\<lparr>idx = length (faces G), edge = None\<rparr>]\<rparr>)"

text \<open>
  \<open>addEdge\<close>: creates one directed half-edge, does not by itself establish twin, next or
  face, and fails if either endpoint is unknown.
\<close>

definition add_edge :: "Vertex \<Rightarrow> Vertex \<Rightarrow> CLSGraph \<Rightarrow> (Edge \<times> CLSGraph) option" where
  "add_edge u v G =
     (if u < length (vertices G) \<and> v < length (vertices G)
      then Some (length (edges G),
                 G\<lparr>edges := edges G @ [Some \<lparr>src = u, trg = v, props = EdgeProps_new\<rparr>]\<rparr>)
      else None)"

definition remove_edge :: "Edge \<Rightarrow> CLSGraph \<Rightarrow> CLSGraph" where
  "remove_edge e G = G\<lparr>edges := (edges G)[e := None]\<rparr>"

text \<open>The accessors \<open>source\<close> and \<open>target\<close>, and the property access \<open>g[e]\<close>.\<close>

definition source :: "CLSGraph \<Rightarrow> Edge \<Rightarrow> Vertex option" where
  "source G e = map_option src (half_edge G e)"

definition target :: "CLSGraph \<Rightarrow> Edge \<Rightarrow> Vertex option" where
  "target G e = map_option trg (half_edge G e)"

definition edge_props :: "CLSGraph \<Rightarrow> Edge \<Rightarrow> EdgeProps option" where
  "edge_props G e = map_option props (half_edge G e)"

definition update_edge :: "Edge \<Rightarrow> (EdgeProps \<Rightarrow> EdgeProps) \<Rightarrow> CLSGraph \<Rightarrow> CLSGraph option" where
  "update_edge e upd G =
     (case half_edge G e of
        None \<Rightarrow> None
      | Some h \<Rightarrow> Some (G\<lparr>edges := (edges G)[e := Some (h\<lparr>props := upd (props h)\<rparr>)]\<rparr>))"

text \<open>\<open>g[e].next = n\<close>, \<open>g[e].twin = t\<close> and \<open>g[e].face = f\<close>.\<close>

definition set_next :: "Edge \<Rightarrow> Edge option \<Rightarrow> CLSGraph \<Rightarrow> CLSGraph option" where
  "set_next e n G = update_edge e (\<lambda>p. p\<lparr>nxt := n\<rparr>) G"

definition set_twin :: "Edge \<Rightarrow> Edge option \<Rightarrow> CLSGraph \<Rightarrow> CLSGraph option" where
  "set_twin e t G = update_edge e (\<lambda>p. p\<lparr>twin := t\<rparr>) G"

definition set_face :: "Edge \<Rightarrow> Face option \<Rightarrow> CLSGraph \<Rightarrow> CLSGraph option" where
  "set_face e f G = update_edge e (\<lambda>p. p\<lparr>face := f\<rparr>) G"

text \<open>\<open>g[f].edge = e\<close>.\<close>

definition set_face_edge :: "Face \<Rightarrow> Edge \<Rightarrow> CLSGraph \<Rightarrow> CLSGraph option" where
  "set_face_edge f e G =
     (if f < length (faces G)
      then Some (G\<lparr>faces := (faces G)[f := (faces G ! f)\<lparr>edge := Some e\<rparr>]\<rparr>)
      else None)"

text \<open>\<open>g[v].position\<close>, read and assigned.\<close>

definition get_position :: "CLSGraph \<Rightarrow> Vertex \<Rightarrow> Point option" where
  "get_position G v = map_option position (lookup (vertices G) v)"

definition set_position :: "Vertex \<Rightarrow> Point \<Rightarrow> CLSGraph \<Rightarrow> CLSGraph option" where
  "set_position v p G =
     (if v < length (vertices G)
      then Some (G\<lparr>vertices := (vertices G)[v := (vertices G ! v)\<lparr>position := p\<rparr>]\<rparr>)
      else None)"

text \<open>
  \<open>setTwin\<close>: declares two half-edges as mutual twins, sets both directions, and fails if
  one of them already has a different twin.
\<close>

definition twin_edges :: "Edge \<Rightarrow> Edge \<Rightarrow> CLSGraph \<Rightarrow> CLSGraph option" where
  "twin_edges e1 e2 G = do {
     p1 \<leftarrow> edge_props G e1;
     p2 \<leftarrow> edge_props G e2;
     if (twin p1 = None \<or> twin p1 = Some e2) \<and> (twin p2 = None \<or> twin p2 = Some e1)
     then do { G1 \<leftarrow> set_twin e1 (Some e2) G; set_twin e2 (Some e1) G1 }
     else None
   }"

text \<open>
  \<open>faceBoundary\<close>: follows \<open>next\<close> from the face's representative half-edge until it
  recurs, and fails if the cycle does not close within a bounded number of steps. The
  bound is the size of the half-edge arena: a cycle that closes visits each of its
  half-edges once.
\<close>

fun cycle_from :: "nat \<Rightarrow> CLSGraph \<Rightarrow> Edge \<Rightarrow> Edge \<Rightarrow> Edge list option" where
  "cycle_from 0 G start cur = None"
| "cycle_from (Suc n) G start cur = do {
     p \<leftarrow> edge_props G cur;
     e' \<leftarrow> nxt p;
     if e' = start then Some [cur]
     else map_option ((#) cur) (cycle_from n G start e')
   }"

definition face_edges :: "CLSGraph \<Rightarrow> Face \<Rightarrow> Edge list option" where
  "face_edges G f = do {
     fp \<leftarrow> lookup (faces G) f;
     e \<leftarrow> edge fp;
     cycle_from (length (edges G)) G e e
   }"

text \<open>The predecessor of a half-edge: the half-edge of its cycle whose \<open>next\<close> it is.\<close>

definition previous_edge :: "CLSGraph \<Rightarrow> Edge \<Rightarrow> Edge option" where
  "previous_edge G e = map_option last (cycle_from (length (edges G)) G e e)"

text \<open>
  \<open>insertVertexInEdge\<close>, called by the code as \<open>insert_vertex_in_edge(v, e)\<close> with a
  vertex that exists already. It splits \<open>e\<close> (source to target) into \<open>e1\<close> (source to
  \<open>v\<close>) and \<open>e2\<close> (\<open>v\<close> to target) and splits the twin of \<open>e\<close> symmetrically into \<open>te1\<close>
  and \<open>te2\<close>. The new half-edges inherit the face of their parent; the predecessors'
  \<open>next\<close> point at the first new half-edge of each side; \<open>e1, e2\<close> and \<open>te1, te2\<close> are
  chained and continue where the parents did; the twins cross (\<open>e1\<close> with \<open>te2\<close>, \<open>e2\<close>
  with \<open>te1\<close>); a face of a parent is represented by the first new half-edge of its side;
  the two parents are removed (the code's own comment: "this also removes the old
  edges"). It fails if \<open>e\<close> has no twin or an endpoint is unknown.
\<close>

definition set_face_edge_opt :: "Face option \<Rightarrow> Edge \<Rightarrow> CLSGraph \<Rightarrow> CLSGraph option" where
  "set_face_edge_opt fo e G = (case fo of None \<Rightarrow> Some G | Some f \<Rightarrow> set_face_edge f e G)"

definition insert_vertex_in_edge :: "Vertex \<Rightarrow> Edge \<Rightarrow> CLSGraph \<Rightarrow> CLSGraph option" where
  "insert_vertex_in_edge v e G = do {
     h \<leftarrow> half_edge G e;
     tw \<leftarrow> twin (props h);
     th \<leftarrow> half_edge G tw;
     previous \<leftarrow> previous_edge G e;
     twin_previous \<leftarrow> previous_edge G tw;
     (e1, G) \<leftarrow> add_edge (src h) v G;
     (e2, G) \<leftarrow> add_edge v (trg h) G;
     G \<leftarrow> set_face e1 (face (props h)) G;
     G \<leftarrow> set_face e2 (face (props h)) G;
     G \<leftarrow> set_next previous (Some e1) G;
     G \<leftarrow> set_next e1 (Some e2) G;
     G \<leftarrow> set_next e2 (nxt (props h)) G;
     (te1, G) \<leftarrow> add_edge (src th) v G;
     (te2, G) \<leftarrow> add_edge v (trg th) G;
     G \<leftarrow> set_face te1 (face (props th)) G;
     G \<leftarrow> set_face te2 (face (props th)) G;
     G \<leftarrow> set_next twin_previous (Some te1) G;
     G \<leftarrow> set_next te1 (Some te2) G;
     G \<leftarrow> set_next te2 (nxt (props th)) G;
     G \<leftarrow> set_twin e1 (Some te2) G;
     G \<leftarrow> set_twin te2 (Some e1) G;
     G \<leftarrow> set_twin e2 (Some te1) G;
     G \<leftarrow> set_twin te1 (Some e2) G;
     G \<leftarrow> set_face_edge_opt (face (props h)) e1 G;
     G \<leftarrow> set_face_edge_opt (face (props th)) te1 G;
     Some (remove_edge e (remove_edge tw G))
   }"

subsection \<open>The class CutterLocationSurface\<close>

record CutterLocationSurface =
  g :: CLSGraph
  min_sampling :: "real option"
  far :: real
  out_face :: "Face option"

text \<open>
  The loop body of \<open>subdivide_face\<close> for one boundary half-edge \<open>e\<close>: the midpoint of
  \<open>e\<close> is computed, a quarter of the position of the source of \<open>e\<close> is added to the
  position of the center, a vertex is added at the midpoint and inserted in \<open>e\<close>.
\<close>

definition split_edge :: "Vertex \<Rightarrow> Edge \<Rightarrow> 32 word \<times> CLSGraph \<Rightarrow> (32 word \<times> CLSGraph) option" where
  "split_edge center e st = do {
     let (cnt, G) = st;
     s \<leftarrow> source G e;
     t \<leftarrow> target G e;
     ps \<leftarrow> get_position G s;
     pt \<leftarrow> get_position G t;
     let mid = Point_scale 0.5 (Point_add ps pt);
     pc \<leftarrow> get_position G center;
     G \<leftarrow> set_position center (Point_add pc (Point_scale 0.25 ps)) G;
     let (v, cnt, G) = add_vertex cnt G;
     G \<leftarrow> set_position v mid G;
     G \<leftarrow> insert_vertex_in_edge v e G;
     Some (cnt, G)
   }"

text \<open>\<open>BOOST_FOREACH( Edge e, f_edges )\<close> over the body above.\<close>

fun split_edges :: "Vertex \<Rightarrow> Edge list \<Rightarrow> 32 word \<times> CLSGraph \<Rightarrow> (32 word \<times> CLSGraph) option" where
  "split_edges center [] st = Some st"
| "split_edges center (e # es) st = do {
     st' \<leftarrow> split_edge center e st;
     split_edges center es st'
   }"

text \<open>
  \<open>subdivide_face\<close>. The second loop only prints the half-edges of the face and is left
  out; the two assertions stay.
\<close>

definition subdivide_face :: "Face \<Rightarrow> 32 word \<times> CLSGraph \<Rightarrow> (32 word \<times> CLSGraph) option" where
  "subdivide_face f st = do {
     let (cnt, G) = st;
     f_edges \<leftarrow> face_edges G f;
     if length f_edges = 4 then do {
       let (center, cnt, G) = add_vertex cnt G;
       (cnt, G) \<leftarrow> split_edges center f_edges (cnt, G);
       f_edges \<leftarrow> face_edges G f;
       if length f_edges = 8 then Some (cnt, G) else None
     } else None
   }"

subsection \<open>The mutations of a subdivision pass keep the faces and their ids\<close>

lemma update_edge_faces:
  "update_edge e upd G = Some G' \<Longrightarrow> faces G' = faces G \<and> vertices G' = vertices G"
  by (auto simp: update_edge_def split: option.splits)

lemma add_edge_faces:
  "add_edge u v G = Some (e, G') \<Longrightarrow> faces G' = faces G \<and> vertices G' = vertices G"
  by (auto simp: add_edge_def split: if_splits)

lemma set_face_edge_idx:
  "set_face_edge f e G = Some G' \<Longrightarrow>
     map idx (faces G') = map idx (faces G) \<and> vertices G' = vertices G \<and> edges G' = edges G"
  by (auto simp: set_face_edge_def list_eq_iff_nth_eq nth_list_update split: if_splits)

lemma set_face_edge_opt_idx:
  "set_face_edge_opt fo e G = Some G' \<Longrightarrow>
     map idx (faces G') = map idx (faces G) \<and> vertices G' = vertices G \<and> edges G' = edges G"
  by (auto simp: set_face_edge_opt_def split: option.splits dest: set_face_edge_idx)

lemma insert_vertex_in_edge_idx:
  assumes "insert_vertex_in_edge v e G = Some G'"
  shows "map idx (faces G') = map idx (faces G) \<and> vertices G' = vertices G"
  using assms
  unfolding insert_vertex_in_edge_def set_next_def set_twin_def set_face_def
  by (auto simp: bind_eq_Some_conv remove_edge_def
           dest!: update_edge_faces add_edge_faces set_face_edge_opt_idx)

lemma set_position_length:
  "set_position v p G = Some G' \<Longrightarrow>
     faces G' = faces G \<and> length (vertices G') = length (vertices G) \<and> edges G' = edges G"
  by (auto simp: set_position_def split: if_splits)

lemma split_edge_idx:
  assumes "split_edge center e (cnt, G) = Some (cnt', G')"
  shows "map idx (faces G') = map idx (faces G)
         \<and> length (vertices G') = Suc (length (vertices G)) \<and> cnt' = cnt + 1"
  using assms
  unfolding split_edge_def add_vertex_def VertexProps_new_def VertexProps_init_def
  by (auto simp: bind_eq_Some_conv Let_def
           dest!: set_position_length insert_vertex_in_edge_idx)

lemma split_edges_idx:
  "split_edges center es (cnt, G) = Some (cnt', G') \<Longrightarrow>
     map idx (faces G') = map idx (faces G)
     \<and> length (vertices G') = length (vertices G) + length es
     \<and> cnt' = cnt + of_nat (length es)"
proof (induction es arbitrary: cnt G)
  case Nil
  then show ?case by simp
next
  case (Cons e es)
  from Cons.prems obtain cnt1 G1 where
    1: "split_edge center e (cnt, G) = Some (cnt1, G1)" and
    2: "split_edges center es (cnt1, G1) = Some (cnt', G')"
    by (auto simp: bind_eq_Some_conv)
  from split_edge_idx [OF 1] Cons.IH [OF 2] show ?case by simp
qed

lemma subdivide_face_idx:
  assumes "subdivide_face f (cnt, G) = Some (cnt', G')"
  shows "map idx (faces G') = map idx (faces G) \<and> num_vertices G' = num_vertices G + 5
         \<and> cnt' = cnt + 5 \<and> map_option length (face_edges G' f) = Some 8"
  using assms
  unfolding subdivide_face_def add_vertex_def VertexProps_new_def VertexProps_init_def
    num_vertices_def
  by (auto simp: bind_eq_Some_conv Let_def split: if_splits dest!: split_edges_idx)

lemma subdivide_face_length:
  assumes "subdivide_face f (cnt, G) = Some (cnt', G')"
  shows "num_faces G' = num_faces G"
  using subdivide_face_idx [OF assms] map_eq_imp_length_eq [of idx "faces G'" idx "faces G"]
  by (simp add: num_faces_def)

subsection \<open>Subdivision of all faces, initialisation, construction\<close>

text \<open>
  \<open>subdivide\<close>: \<open>for( Face f=0; f< g.num_faces() ; ++f )\<close>, with the bound read again in
  every round, calls \<open>subdivide_face(f)\<close> for every face but \<open>out_face\<close>.
\<close>

function subdivide_loop :: "Face \<Rightarrow> Face \<Rightarrow> 32 word \<times> CLSGraph \<Rightarrow> (32 word \<times> CLSGraph) option" where
  "subdivide_loop out f (cnt, G) =
     (if f < num_faces G then
        (if f \<noteq> out then
           (case subdivide_face f (cnt, G) of
              None \<Rightarrow> None
            | Some (cnt', G') \<Rightarrow> subdivide_loop out (Suc f) (cnt', G'))
         else subdivide_loop out (Suc f) (cnt, G))
      else Some (cnt, G))"
  by pat_completeness auto
termination
proof (relation "measure (\<lambda>(out, f, cnt, G). num_faces G - f)")
  show "wf (measure (\<lambda>(out, f, cnt, G). num_faces G - f))" by simp
next
  fix out f :: Face and cnt cnt' :: "32 word" and G G' :: CLSGraph and x2
  assume "f < num_faces G" and "subdivide_face f (cnt, G) = Some x2" and "(cnt', G') = x2"
  then show "((out, Suc f, cnt', G'), (out, f, cnt, G))
             \<in> measure (\<lambda>(out, f, cnt, G). num_faces G - f)"
    using subdivide_face_length [of f cnt G cnt' G'] by auto
next
  fix out f :: Face and cnt :: "32 word" and G :: CLSGraph
  assume "f < num_faces G"
  then show "((out, Suc f, cnt, G), (out, f, cnt, G))
             \<in> measure (\<lambda>(out, f, cnt, G). num_faces G - f)"
    by auto
qed

declare subdivide_loop.simps [simp del]

definition subdivide :: "32 word \<times> CutterLocationSurface \<Rightarrow> (32 word \<times> CutterLocationSurface) option" where
  "subdivide st = do {
     let (cnt, s) = st;
     out \<leftarrow> out_face s;
     (cnt, G) \<leftarrow> subdivide_loop out 0 (cnt, g s);
     Some (cnt, s\<lparr>g := G\<rparr>)
   }"

text \<open>
  \<open>init\<close>, in two parts: \<open>init_quad\<close> is everything up to the last \<open>next\<close> pointer, and
  \<open>init\<close> then calls \<open>subdivide\<close>. The position of \<open>d\<close> is never assigned: the fourth
  assignment is to \<open>g[c].position\<close>, as in the source.
\<close>

definition init_quad :: "32 word \<times> CutterLocationSurface \<Rightarrow> (32 word \<times> CutterLocationSurface) option" where
  "init_quad st = do {
     let (cnt, s) = st;
     let G = g s;
     let (a, cnt, G) = add_vertex cnt G;
     G \<leftarrow> set_position a (Point (far s) (far s) 0) G;
     let (b, cnt, G) = add_vertex cnt G;
     G \<leftarrow> set_position b (Point (- far s) (far s) 0) G;
     let (c, cnt, G) = add_vertex cnt G;
     G \<leftarrow> set_position c (Point (- far s) (- far s) 0) G;
     let (d, cnt, G) = add_vertex cnt G;
     G \<leftarrow> set_position c (Point (far s) (- far s) 0) G;
     let (f_outer, G) = add_face G;
     let (f_inner, G) = add_face G;
     (e1, G) \<leftarrow> add_edge a b G;
     (e1t, G) \<leftarrow> add_edge b a G;
     (e2, G) \<leftarrow> add_edge b c G;
     (e2t, G) \<leftarrow> add_edge c b G;
     (e3, G) \<leftarrow> add_edge c d G;
     (e3t, G) \<leftarrow> add_edge d c G;
     (e4, G) \<leftarrow> add_edge d a G;
     (e4t, G) \<leftarrow> add_edge a d G;
     G \<leftarrow> set_face_edge f_inner e1 G;
     G \<leftarrow> set_face_edge f_outer e1t G;
     let s = s\<lparr>out_face := Some f_outer\<rparr>;
     G \<leftarrow> twin_edges e1 e1t G;
     G \<leftarrow> twin_edges e2 e2t G;
     G \<leftarrow> twin_edges e3 e3t G;
     G \<leftarrow> twin_edges e4 e4t G;
     G \<leftarrow> set_face e1 (Some f_inner) G;
     G \<leftarrow> set_face e2 (Some f_inner) G;
     G \<leftarrow> set_face e3 (Some f_inner) G;
     G \<leftarrow> set_face e4 (Some f_inner) G;
     G \<leftarrow> set_face e1t (Some f_outer) G;
     G \<leftarrow> set_face e2t (Some f_outer) G;
     G \<leftarrow> set_face e3t (Some f_outer) G;
     G \<leftarrow> set_face e4t (Some f_outer) G;
     G \<leftarrow> set_next e1 (Some e2) G;
     G \<leftarrow> set_next e2 (Some e3) G;
     G \<leftarrow> set_next e3 (Some e4) G;
     G \<leftarrow> set_next e4 (Some e1) G;
     G \<leftarrow> set_next e1t (Some e4t) G;
     G \<leftarrow> set_next e4t (Some e3t) G;
     G \<leftarrow> set_next e3t (Some e2t) G;
     G \<leftarrow> set_next e2t (Some e1t) G;
     Some (cnt, s\<lparr>g := G\<rparr>)
   }"

definition init :: "32 word \<times> CutterLocationSurface \<Rightarrow> (32 word \<times> CutterLocationSurface) option" where
  "init st = do { st' \<leftarrow> init_quad st; subdivide st' }"

text \<open>
  The constructor \<open>CutterLocationSurface(double f)\<close>: the graph member is
  default-constructed (empty), \<open>min_sampling\<close> and \<open>out_face\<close> are not initialised,
  \<open>far=f; init();\<close>. The default constructor is the same with \<open>far=1.0\<close>.
\<close>

definition new_surface :: "real \<Rightarrow> CutterLocationSurface" where
  "new_surface f = \<lparr>g = empty_graph, min_sampling = None, far = f, out_face = None\<rparr>"

definition CutterLocationSurface :: "real \<Rightarrow> 32 word \<Rightarrow> (32 word \<times> CutterLocationSurface) option" where
  "CutterLocationSurface f cnt = init (cnt, new_surface f)"

definition CutterLocationSurface_default :: "32 word \<Rightarrow> (32 word \<times> CutterLocationSurface) option" where
  "CutterLocationSurface_default cnt = init (cnt, new_surface 1.0)"

text \<open>\<open>virtual void run() {}\<close> and \<open>setMinSampling\<close>.\<close>

definition run :: "CutterLocationSurface \<Rightarrow> CutterLocationSurface" where
  "run s = s"

definition setMinSampling :: "real \<Rightarrow> CutterLocationSurface \<Rightarrow> CutterLocationSurface" where
  "setMinSampling s0 s = s\<lparr>min_sampling := Some s0\<rparr>"

subsection \<open>Observations used to state the properties\<close>

text \<open>The twin of a half-edge, and the half-edges that exist (the empty slots left out).\<close>

definition twin_of :: "CLSGraph \<Rightarrow> Edge \<Rightarrow> Edge option" where
  "twin_of G e = do { p \<leftarrow> edge_props G e; twin p }"

definition live_edges :: "CLSGraph \<Rightarrow> Edge list" where
  "live_edges G = filter (\<lambda>e. half_edge G e \<noteq> None) [0..<length (edges G)]"

text \<open>Twin symmetry: every half-edge has a twin, whose twin it is.\<close>

definition twin_symmetry :: "CLSGraph \<Rightarrow> bool" where
  "twin_symmetry G = list_all (\<lambda>e. (twin_of G e \<bind> twin_of G) = Some e) (live_edges G)"

text \<open>The weaker form: a twin link that is set is mutual.\<close>

definition twin_links_mutual :: "CLSGraph \<Rightarrow> bool" where
  "twin_links_mutual G =
     list_all (\<lambda>e. case twin_of G e of None \<Rightarrow> True | Some t \<Rightarrow> twin_of G t = Some e)
       (live_edges G)"

text \<open>The half-edges that start or end at a vertex.\<close>

definition incident_edges :: "CLSGraph \<Rightarrow> Vertex \<Rightarrow> Edge list" where
  "incident_edges G v =
     filter (\<lambda>e. source G e = Some v \<or> target G e = Some v) (live_edges G)"

text \<open>The faces \<open>subdivide\<close> treats as bounded (\<open>f != out_face\<close>), and the others.\<close>

definition bounded_faces :: "CutterLocationSurface \<Rightarrow> Face list" where
  "bounded_faces s = filter (\<lambda>f. Some f \<noteq> out_face s) [0..<num_faces (g s)]"

definition outer_faces :: "CutterLocationSurface \<Rightarrow> Face list" where
  "outer_faces s = filter (\<lambda>f. Some f = out_face s) [0..<num_faces (g s)]"

text \<open>The position of the source of a half-edge: a corner of the face it bounds.\<close>

definition corner :: "CLSGraph \<Rightarrow> Edge \<Rightarrow> Point option" where
  "corner G e = source G e \<bind> get_position G"

fun Point_sum :: "Point list \<Rightarrow> Point" where
  "Point_sum [] = Point 0 0 0"
| "Point_sum (p # ps) = Point_add p (Point_sum ps)"

text \<open>The square of the length of a half-edge.\<close>

fun dist_sq :: "Point \<Rightarrow> Point \<Rightarrow> real" where
  "dist_sq (Point a b c) (Point a' b' c') = (a - a')\<^sup>2 + (b - b')\<^sup>2 + (c - c')\<^sup>2"

definition edge_length_sq :: "CLSGraph \<Rightarrow> Edge \<Rightarrow> real option" where
  "edge_length_sq G e = do {
     s \<leftarrow> source G e;
     t \<leftarrow> target G e;
     ps \<leftarrow> get_position G s;
     pt \<leftarrow> get_position G t;
     Some (dist_sq ps pt)
   }"

text \<open>
  The invariant of the loop of \<open>subdivide_face\<close> from which the position of the center
  follows: relative to the graph \<open>G0\<close> before the pass, a graph \<open>G\<close> during the pass has
  kept the source of every half-edge of \<open>G0\<close> it still has, and the position of every
  vertex of \<open>G0\<close> but the center \<open>c\<close>.
\<close>

definition keeps_corners :: "CLSGraph \<Rightarrow> Vertex \<Rightarrow> CLSGraph \<Rightarrow> bool" where
  "keeps_corners G0 c G \<longleftrightarrow>
     length (edges G0) \<le> length (edges G)
     \<and> (\<forall>x < length (edges G0). source G x = None \<or> source G x = source G0 x)
     \<and> (\<forall>v p. get_position G0 v = Some p \<longrightarrow> v \<noteq> c \<longrightarrow> get_position G v = Some p)"

subsection \<open>The bounding quad and the built mesh in closed form\<close>

lemmas graph_defs =
  add_vertex_def VertexProps_new_def VertexProps_init_def set_position_def add_face_def
  add_edge_def set_face_edge_def twin_edges_def edge_props_def half_edge_def lookup_def
  set_twin_def set_face_def set_next_def update_edge_def EdgeProps_new_def Point_default_def
  source_def target_def get_position_def remove_edge_def set_face_edge_opt_def

lemmas observation_defs =
  twin_of_def live_edges_def twin_symmetry_def twin_links_mutual_def incident_edges_def
  bounded_faces_def outer_faces_def corner_def edge_length_sq_def num_faces_def
  num_vertices_def num_edges_def

lemma cycle_from_numeral:
  "cycle_from (numeral k) G s c = cycle_from (Suc (pred_numeral k)) G s c"
  by (simp add: numeral_eq_Suc)

text \<open>
  The two graphs below are not part of the program: they are the values the program
  computes, written out, for every \<open>far\<close> and every value of the vertex counter. The
  lemmas after them prove that \<open>init\<close> and \<open>subdivide_face\<close> compute exactly these.
\<close>

definition quad_graph :: "real \<Rightarrow> 32 word \<Rightarrow> CLSGraph" where
  "quad_graph f cnt =
     \<lparr>vertices =
        [\<lparr>position = Point f f 0, index = cnt\<rparr>,
         \<lparr>position = Point (- f) f 0, index = cnt + 1\<rparr>,
         \<lparr>position = Point f (- f) 0, index = cnt + 2\<rparr>,
         \<lparr>position = Point 0 0 0, index = cnt + 3\<rparr>],
      edges =
        [Some \<lparr>src = 0, trg = 1, props = \<lparr>nxt = Some 2, twin = Some 1, face = Some 1\<rparr>\<rparr>,
         Some \<lparr>src = 1, trg = 0, props = \<lparr>nxt = Some 7, twin = Some 0, face = Some 0\<rparr>\<rparr>,
         Some \<lparr>src = 1, trg = 2, props = \<lparr>nxt = Some 4, twin = Some 3, face = Some 1\<rparr>\<rparr>,
         Some \<lparr>src = 2, trg = 1, props = \<lparr>nxt = Some 1, twin = Some 2, face = Some 0\<rparr>\<rparr>,
         Some \<lparr>src = 2, trg = 3, props = \<lparr>nxt = Some 6, twin = Some 5, face = Some 1\<rparr>\<rparr>,
         Some \<lparr>src = 3, trg = 2, props = \<lparr>nxt = Some 3, twin = Some 4, face = Some 0\<rparr>\<rparr>,
         Some \<lparr>src = 3, trg = 0, props = \<lparr>nxt = Some 0, twin = Some 7, face = Some 1\<rparr>\<rparr>,
         Some \<lparr>src = 0, trg = 3, props = \<lparr>nxt = Some 5, twin = Some 6, face = Some 0\<rparr>\<rparr>],
      faces = [\<lparr>idx = 0, edge = Some 1\<rparr>, \<lparr>idx = 1, edge = Some 0\<rparr>]\<rparr>"

definition built_graph :: "real \<Rightarrow> 32 word \<Rightarrow> CLSGraph" where
  "built_graph f cnt =
     \<lparr>vertices =
        [\<lparr>position = Point f f 0, index = cnt\<rparr>,
         \<lparr>position = Point (- f) f 0, index = cnt + 1\<rparr>,
         \<lparr>position = Point f (- f) 0, index = cnt + 2\<rparr>,
         \<lparr>position = Point 0 0 0, index = cnt + 3\<rparr>,
         \<lparr>position = Point (f / 4) (f / 4) 0, index = cnt + 4\<rparr>,
         \<lparr>position = Point 0 f 0, index = cnt + 5\<rparr>,
         \<lparr>position = Point 0 0 0, index = cnt + 6\<rparr>,
         \<lparr>position = Point (f / 2) (- (f / 2)) 0, index = cnt + 7\<rparr>,
         \<lparr>position = Point (f / 2) (f / 2) 0, index = cnt + 8\<rparr>],
      edges =
        [None, None, None, None, None, None, None, None,
         Some \<lparr>src = 0, trg = 5, props = \<lparr>nxt = Some 9, twin = Some 11, face = Some 1\<rparr>\<rparr>,
         Some \<lparr>src = 5, trg = 1, props = \<lparr>nxt = Some 12, twin = Some 10, face = Some 1\<rparr>\<rparr>,
         Some \<lparr>src = 1, trg = 5, props = \<lparr>nxt = Some 11, twin = Some 9, face = Some 0\<rparr>\<rparr>,
         Some \<lparr>src = 5, trg = 0, props = \<lparr>nxt = Some 22, twin = Some 8, face = Some 0\<rparr>\<rparr>,
         Some \<lparr>src = 1, trg = 6, props = \<lparr>nxt = Some 13, twin = Some 15, face = Some 1\<rparr>\<rparr>,
         Some \<lparr>src = 6, trg = 2, props = \<lparr>nxt = Some 16, twin = Some 14, face = Some 1\<rparr>\<rparr>,
         Some \<lparr>src = 2, trg = 6, props = \<lparr>nxt = Some 15, twin = Some 13, face = Some 0\<rparr>\<rparr>,
         Some \<lparr>src = 6, trg = 1, props = \<lparr>nxt = Some 10, twin = Some 12, face = Some 0\<rparr>\<rparr>,
         Some \<lparr>src = 2, trg = 7, props = \<lparr>nxt = Some 17, twin = Some 19, face = Some 1\<rparr>\<rparr>,
         Some \<lparr>src = 7, trg = 3, props = \<lparr>nxt = Some 20, twin = Some 18, face = Some 1\<rparr>\<rparr>,
         Some \<lparr>src = 3, trg = 7, props = \<lparr>nxt = Some 19, twin = Some 17, face = Some 0\<rparr>\<rparr>,
         Some \<lparr>src = 7, trg = 2, props = \<lparr>nxt = Some 14, twin = Some 16, face = Some 0\<rparr>\<rparr>,
         Some \<lparr>src = 3, trg = 8, props = \<lparr>nxt = Some 21, twin = Some 23, face = Some 1\<rparr>\<rparr>,
         Some \<lparr>src = 8, trg = 0, props = \<lparr>nxt = Some 8, twin = Some 22, face = Some 1\<rparr>\<rparr>,
         Some \<lparr>src = 0, trg = 8, props = \<lparr>nxt = Some 23, twin = Some 21, face = Some 0\<rparr>\<rparr>,
         Some \<lparr>src = 8, trg = 3, props = \<lparr>nxt = Some 18, twin = Some 20, face = Some 0\<rparr>\<rparr>],
      faces = [\<lparr>idx = 0, edge = Some 22\<rparr>, \<lparr>idx = 1, edge = Some 20\<rparr>]\<rparr>"

text \<open>
  The bounding quad with four arbitrary vertex records in place of the four corners: the
  half-edges, twins, cycles and faces of \<open>quad_graph\<close>, whatever the positions and
  indices of the vertices. \<open>boundary_orders\<close> lists the 24 orders in which the four
  boundary half-edges 0, 2, 4, 6 of its inner face can be visited.
\<close>

definition quad_mesh :: "VertexProps \<Rightarrow> VertexProps \<Rightarrow> VertexProps \<Rightarrow> VertexProps \<Rightarrow> CLSGraph" where
  "quad_mesh va vb vc vd =
     \<lparr>vertices = [va, vb, vc, vd],
      edges =
        [Some \<lparr>src = 0, trg = 1, props = \<lparr>nxt = Some 2, twin = Some 1, face = Some 1\<rparr>\<rparr>,
         Some \<lparr>src = 1, trg = 0, props = \<lparr>nxt = Some 7, twin = Some 0, face = Some 0\<rparr>\<rparr>,
         Some \<lparr>src = 1, trg = 2, props = \<lparr>nxt = Some 4, twin = Some 3, face = Some 1\<rparr>\<rparr>,
         Some \<lparr>src = 2, trg = 1, props = \<lparr>nxt = Some 1, twin = Some 2, face = Some 0\<rparr>\<rparr>,
         Some \<lparr>src = 2, trg = 3, props = \<lparr>nxt = Some 6, twin = Some 5, face = Some 1\<rparr>\<rparr>,
         Some \<lparr>src = 3, trg = 2, props = \<lparr>nxt = Some 3, twin = Some 4, face = Some 0\<rparr>\<rparr>,
         Some \<lparr>src = 3, trg = 0, props = \<lparr>nxt = Some 0, twin = Some 7, face = Some 1\<rparr>\<rparr>,
         Some \<lparr>src = 0, trg = 3, props = \<lparr>nxt = Some 5, twin = Some 6, face = Some 0\<rparr>\<rparr>],
      faces = [\<lparr>idx = 0, edge = Some 1\<rparr>, \<lparr>idx = 1, edge = Some 0\<rparr>]\<rparr>"

definition boundary_orders :: "Edge list list" where
  "boundary_orders =
     [[0, 2, 4, 6],
      [0, 2, 6, 4],
      [0, 4, 2, 6],
      [0, 4, 6, 2],
      [0, 6, 2, 4],
      [0, 6, 4, 2],
      [2, 0, 4, 6],
      [2, 0, 6, 4],
      [2, 4, 0, 6],
      [2, 4, 6, 0],
      [2, 6, 0, 4],
      [2, 6, 4, 0],
      [4, 0, 2, 6],
      [4, 0, 6, 2],
      [4, 2, 0, 6],
      [4, 2, 6, 0],
      [4, 6, 0, 2],
      [4, 6, 2, 0],
      [6, 0, 2, 4],
      [6, 0, 4, 2],
      [6, 2, 0, 4],
      [6, 2, 4, 0],
      [6, 4, 0, 2],
      [6, 4, 2, 0]]"


lemma init_quad_result:
  "init_quad (cnt, new_surface f) =
     Some (cnt + 4, \<lparr>g = quad_graph f cnt, min_sampling = None, far = f, out_face = Some 0\<rparr>)"
  by (simp add: init_quad_def new_surface_def empty_graph_def quad_graph_def graph_defs)

lemma subdivide_face_quad:
  "subdivide_face 1 (cnt + 4, quad_graph f cnt) = Some (cnt + 9, built_graph f cnt)"
  by (simp add: quad_graph_def built_graph_def subdivide_face_def split_edge_def
        insert_vertex_in_edge_def previous_edge_def face_edges_def cycle_from_numeral
        graph_defs)

lemma build_result:
  "CutterLocationSurface f cnt =
     Some (cnt + 9, \<lparr>g = built_graph f cnt, min_sampling = None, far = f, out_face = Some 0\<rparr>)"
proof -
  have "num_faces (quad_graph f cnt) = 2" "num_faces (built_graph f cnt) = 2"
    by (simp_all add: num_faces_def quad_graph_def built_graph_def)
  then have "subdivide_loop 0 0 (cnt + 4, quad_graph f cnt) = Some (cnt + 9, built_graph f cnt)"
    by (simp add: subdivide_loop.simps subdivide_face_quad [unfolded One_nat_def])
  then show ?thesis
    by (simp add: CutterLocationSurface_def init_def init_quad_result subdivide_def)
qed

lemmas eval_defs = observation_defs face_edges_def cycle_from_numeral graph_defs

lemma quad_graph_facts:
  "num_vertices (quad_graph f cnt) = 4"
  "map idx (faces (quad_graph f cnt)) = [0, 1]"
  "face_edges (quad_graph f cnt) 1 = Some [0, 2, 4, 6]"
  "twin_symmetry (quad_graph f cnt)"
  by (simp_all add: quad_graph_def eval_defs)

lemma built_graph_facts:
  "num_vertices (built_graph f cnt) = 9"
  "map idx (faces (built_graph f cnt)) = [0, 1]"
  "incident_edges (built_graph f cnt) 4 = []"
  "face_edges (built_graph f cnt) 1 = Some [20, 21, 8, 9, 12, 13, 16, 17]"
  "map (source (built_graph f cnt)) [20, 21, 8, 9, 12, 13, 16, 17]
     = map Some [3, 8, 0, 5, 1, 6, 2, 7]"
  "map (target (built_graph f cnt)) [20, 21, 8, 9, 12, 13, 16, 17]
     = map Some [8, 0, 5, 1, 6, 2, 7, 3]"
  "twin_symmetry (built_graph f cnt)"
  by (simp_all add: built_graph_def eval_defs)


lemma quad_graph_quad_mesh:
  "quad_graph f cnt =
     quad_mesh \<lparr>position = Point f f 0, index = cnt\<rparr> \<lparr>position = Point (- f) f 0, index = cnt + 1\<rparr>
       \<lparr>position = Point f (- f) 0, index = cnt + 2\<rparr> \<lparr>position = Point 0 0 0, index = cnt + 3\<rparr>"
  by (simp add: quad_graph_def quad_mesh_def)

lemma quad_mesh_corners:
  "face_edges (quad_mesh va vb vc vd) 1 = Some [0, 2, 4, 6]"
  "map (corner (quad_mesh va vb vc vd)) [0, 2, 4, 6]
     = map Some [position va, position vb, position vc, position vd]"
  "num_vertices (quad_mesh va vb vc vd) = 4"
  by (simp_all add: quad_mesh_def eval_defs)

lemma quad_mesh_pass_returns:
  "subdivide_face 1 (cnt, quad_mesh va vb vc vd) \<noteq> None"
  by (simp add: quad_mesh_def subdivide_face_def split_edge_def
        insert_vertex_in_edge_def previous_edge_def face_edges_def cycle_from_numeral
        graph_defs)

lemma quad_mesh_orders_return_1:
  "list_all (\<lambda>es'. split_edges 4 es' (snd (add_vertex cnt (quad_mesh va vb vc vd))) \<noteq> None)
     [[0, 2, 4, 6],
      [0, 2, 6, 4],
      [0, 4, 2, 6],
      [0, 4, 6, 2],
      [0, 6, 2, 4],
      [0, 6, 4, 2]]"
  by (simp add: quad_mesh_def split_edge_def
        insert_vertex_in_edge_def previous_edge_def cycle_from_numeral graph_defs)

lemma quad_mesh_orders_return_2:
  "list_all (\<lambda>es'. split_edges 4 es' (snd (add_vertex cnt (quad_mesh va vb vc vd))) \<noteq> None)
     [[2, 0, 4, 6],
      [2, 0, 6, 4],
      [2, 4, 0, 6],
      [2, 4, 6, 0],
      [2, 6, 0, 4],
      [2, 6, 4, 0]]"
  by (simp add: quad_mesh_def split_edge_def
        insert_vertex_in_edge_def previous_edge_def cycle_from_numeral graph_defs)

lemma quad_mesh_orders_return_3:
  "list_all (\<lambda>es'. split_edges 4 es' (snd (add_vertex cnt (quad_mesh va vb vc vd))) \<noteq> None)
     [[4, 0, 2, 6],
      [4, 0, 6, 2],
      [4, 2, 0, 6],
      [4, 2, 6, 0],
      [4, 6, 0, 2],
      [4, 6, 2, 0]]"
  by (simp add: quad_mesh_def split_edge_def
        insert_vertex_in_edge_def previous_edge_def cycle_from_numeral graph_defs)

lemma quad_mesh_orders_return_4:
  "list_all (\<lambda>es'. split_edges 4 es' (snd (add_vertex cnt (quad_mesh va vb vc vd))) \<noteq> None)
     [[6, 0, 2, 4],
      [6, 0, 4, 2],
      [6, 2, 0, 4],
      [6, 2, 4, 0],
      [6, 4, 0, 2],
      [6, 4, 2, 0]]"
  by (simp add: quad_mesh_def split_edge_def
        insert_vertex_in_edge_def previous_edge_def cycle_from_numeral graph_defs)

lemma quad_mesh_orders_return:
  "list_all (\<lambda>es'. split_edges 4 es' (snd (add_vertex cnt (quad_mesh va vb vc vd))) \<noteq> None)
     boundary_orders"
  using quad_mesh_orders_return_1 [of cnt va vb vc vd] quad_mesh_orders_return_2 [of cnt va vb vc vd]
    quad_mesh_orders_return_3 [of cnt va vb vc vd] quad_mesh_orders_return_4 [of cnt va vb vc vd]
  by (simp add: boundary_orders_def)

lemma boundary_orders_mset:
  "list_all (\<lambda>es'. mset es' = mset [0, 2, 4, 6]) boundary_orders"
  by (simp add: boundary_orders_def add_mset_commute)


subsection \<open>How the mutations act on source, target and twin\<close>

lemma half_edge_cong: "edges G' = edges G \<Longrightarrow> half_edge G' = half_edge G"
  by (simp add: half_edge_def fun_eq_iff)

lemma half_edge_fresh: "length (edges G) \<le> x \<Longrightarrow> half_edge G x = None"
  by (simp add: half_edge_def lookup_def)

lemma half_edge_live: "half_edge G x = Some h \<Longrightarrow> x < length (edges G)"
  by (auto simp: half_edge_def lookup_def split: if_splits)

lemma observers_cong:
  assumes "edges G' = edges G"
  shows "source G' = source G" "target G' = target G" "twin_of G' = twin_of G"
  using half_edge_cong [OF assms]
  by (simp_all add: source_def target_def twin_of_def edge_props_def fun_eq_iff)

lemma update_edge_observers:
  assumes "update_edge e upd G = Some G'"
  shows "source G' = source G" "target G' = target G"
    "length (edges G') = length (edges G)" "vertices G' = vertices G"
    "twin_of G' = (twin_of G)(e := (edge_props G e \<bind> (\<lambda>p. twin (upd p))))"
    "source G e \<noteq> None"
  using assms
  by (auto simp: update_edge_def source_def target_def twin_of_def edge_props_def
        half_edge_def lookup_def fun_eq_iff nth_list_update
        split: option.splits if_splits)

lemma set_next_observers:
  assumes "set_next e n G = Some G'"
  shows "source G' = source G \<and> target G' = target G \<and> twin_of G' = twin_of G
    \<and> length (edges G') = length (edges G) \<and> vertices G' = vertices G"
  using update_edge_observers [OF assms [unfolded set_next_def]]
  by (auto simp: fun_eq_iff twin_of_def)

lemma set_face_observers:
  assumes "set_face e f G = Some G'"
  shows "source G' = source G \<and> target G' = target G \<and> twin_of G' = twin_of G
    \<and> length (edges G') = length (edges G) \<and> vertices G' = vertices G"
  using update_edge_observers [OF assms [unfolded set_face_def]]
  by (auto simp: fun_eq_iff twin_of_def)

lemma set_twin_observers:
  assumes "set_twin e t G = Some G'"
  shows "source G' = source G \<and> target G' = target G \<and> twin_of G' = (twin_of G)(e := t)
    \<and> length (edges G') = length (edges G) \<and> vertices G' = vertices G \<and> source G e \<noteq> None"
  using update_edge_observers [OF assms [unfolded set_twin_def]]
  by (auto simp: fun_eq_iff twin_of_def edge_props_def source_def)

lemma add_edge_observers:
  assumes "add_edge u v G = Some (n, G')"
  shows "n = length (edges G) \<and> source G' = (source G)(n := Some u)
    \<and> target G' = (target G)(n := Some v) \<and> twin_of G' = twin_of G
    \<and> length (edges G') = Suc (length (edges G)) \<and> vertices G' = vertices G"
  using assms
  by (auto simp: add_edge_def source_def target_def twin_of_def edge_props_def
        half_edge_def lookup_def fun_eq_iff nth_append EdgeProps_new_def
        split: option.splits if_splits)

lemma remove_edge_observers:
  "source (remove_edge e G) = (source G)(e := None)"
  "target (remove_edge e G) = (target G)(e := None)"
  "twin_of (remove_edge e G) = (twin_of G)(e := None)"
  "length (edges (remove_edge e G)) = length (edges G)"
  "vertices (remove_edge e G) = vertices G"
  by (auto simp: remove_edge_def source_def target_def twin_of_def edge_props_def
        half_edge_def lookup_def fun_eq_iff nth_list_update
        split: option.splits if_splits)

lemma set_face_edge_opt_observers:
  assumes "set_face_edge_opt fo e G = Some G'"
  shows "source G' = source G \<and> target G' = target G \<and> twin_of G' = twin_of G
    \<and> length (edges G') = length (edges G) \<and> vertices G' = vertices G"
  using set_face_edge_opt_idx [OF assms] observers_cong [of G' G] by simp

text \<open>What insert_vertex_in_edge does, seen through source, target and twin_of.\<close>

lemma insert_vertex_in_edge_observers:
  assumes "insert_vertex_in_edge v e G = Some G'"
  shows "\<exists>tw s t s' t'. twin_of G e = Some tw \<and> source G e = Some s \<and> target G e = Some t
     \<and> source G tw = Some s' \<and> target G tw = Some t'
     \<and> source G' = (source G)(length (edges G) := Some s, Suc (length (edges G)) := Some v,
           Suc (Suc (length (edges G))) := Some s', Suc (Suc (Suc (length (edges G)))) := Some v,
           tw := None, e := None)
     \<and> target G' = (target G)(length (edges G) := Some v, Suc (length (edges G)) := Some t,
           Suc (Suc (length (edges G))) := Some v, Suc (Suc (Suc (length (edges G)))) := Some t',
           tw := None, e := None)
     \<and> twin_of G' = (twin_of G)(length (edges G) := Some (Suc (Suc (Suc (length (edges G))))),
           Suc (Suc (Suc (length (edges G)))) := Some (length (edges G)),
           Suc (length (edges G)) := Some (Suc (Suc (length (edges G)))),
           Suc (Suc (length (edges G))) := Some (Suc (length (edges G))),
           tw := None, e := None)
     \<and> length (edges G') = length (edges G) + 4 \<and> vertices G' = vertices G"
proof -
  from assms obtain h tw th where
    h: "half_edge G e = Some h" and tw: "twin (props h) = Some tw" and
    th: "half_edge G tw = Some th"
    unfolding insert_vertex_in_edge_def by (auto simp: bind_eq_Some_conv)
  have pre: "twin_of G e = Some tw" "source G e = Some (src h)" "target G e = Some (trg h)"
    "source G tw = Some (src th)" "target G tw = Some (trg th)"
    using h tw th by (simp_all add: twin_of_def source_def target_def edge_props_def)
  show ?thesis
    using assms h tw th pre
    unfolding insert_vertex_in_edge_def
    apply (simp add: bind_eq_Some_conv)
    apply (elim exE conjE)
    apply (drule add_edge_observers set_next_observers set_face_observers set_twin_observers
              set_face_edge_opt_observers)+
    apply (elim conjE)
    apply (clarsimp simp: remove_edge_observers)
    done
qed

lemma source_live: "source G x = Some s \<Longrightarrow> x < length (edges G)"
  by (auto simp: source_def dest: half_edge_live)

lemma twin_of_live: "twin_of G x = Some t \<Longrightarrow> source G x \<noteq> None"
  by (auto simp: twin_of_def source_def edge_props_def bind_eq_Some_conv)

lemma live_edges_set: "set (live_edges G) = {x. source G x \<noteq> None}"
  by (auto simp: live_edges_def source_def dest: half_edge_live)

lemma twin_symmetry_iff:
  "twin_symmetry G \<longleftrightarrow>
     (\<forall>x. source G x \<noteq> None \<longrightarrow> (\<exists>t. twin_of G x = Some t \<and> twin_of G t = Some x))"
  unfolding twin_symmetry_def list_all_iff live_edges_set
  by (simp add: bind_eq_Some_conv)

lemma twin_links_mutual_iff:
  "twin_links_mutual G \<longleftrightarrow> (\<forall>x t. twin_of G x = Some t \<longrightarrow> twin_of G t = Some x)"
proof -
  have "twin_links_mutual G \<longleftrightarrow>
     (\<forall>x. source G x \<noteq> None \<longrightarrow> (\<forall>t. twin_of G x = Some t \<longrightarrow> twin_of G t = Some x))"
    unfolding twin_links_mutual_def list_all_iff live_edges_set
    by (simp split: option.split) blast
  also have "\<dots> \<longleftrightarrow> (\<forall>x t. twin_of G x = Some t \<longrightarrow> twin_of G t = Some x)"
    using twin_of_live [of G] by blast
  finally show ?thesis .
qed
lemma twin_invariants_cong:
  assumes "edges G' = edges G"
  shows "twin_symmetry G' = twin_symmetry G" "twin_links_mutual G' = twin_links_mutual G"
  using observers_cong [OF assms] by (simp_all add: twin_symmetry_iff twin_links_mutual_iff)

lemma insert_vertex_in_edge_twin_symmetry:
  assumes sym: "twin_symmetry G" and ins: "insert_vertex_in_edge v e G = Some G'"
  shows "twin_symmetry G'"
proof -
  define n where "n = length (edges G)"
  from insert_vertex_in_edge_observers [OF ins] obtain tw s s' where
    tw: "twin_of G e = Some tw" and se: "source G e = Some s" and stw: "source G tw = Some s'"
    and src': "source G' = (source G)(n := Some s, Suc n := Some v,
           Suc (Suc n) := Some s', Suc (Suc (Suc n)) := Some v, tw := None, e := None)"
    and tw': "twin_of G' = (twin_of G)(n := Some (Suc (Suc (Suc n))),
           Suc (Suc (Suc n)) := Some n, Suc n := Some (Suc (Suc n)),
           Suc (Suc n) := Some (Suc n), tw := None, e := None)"
    unfolding n_def by blast
  have old: "\<And>x t. twin_of G x = Some t \<Longrightarrow> x < n \<and> t < n \<and> twin_of G t = Some x"
  proof -
    fix x t assume a: "twin_of G x = Some t"
    then have lx: "source G x \<noteq> None" by (rule twin_of_live)
    with sym a have b: "twin_of G t = Some x" by (auto simp: twin_symmetry_iff)
    then have "source G t \<noteq> None" by (rule twin_of_live)
    with lx b show "x < n \<and> t < n \<and> twin_of G t = Some x"
      by (auto simp: n_def dest: source_live)
  qed
  have fresh: "\<And>x. n \<le> x \<Longrightarrow> source G x = None"
    by (simp add: n_def source_def half_edge_fresh)
  from old [OF tw] have etw: "e < n" "tw < n" "twin_of G tw = Some e" by simp_all
  show ?thesis
    unfolding twin_symmetry_iff
  proof (intro allI impI)
    fix x assume live: "source G' x \<noteq> None"
    moreover have "source G' e = None" "source G' tw = None" by (simp_all add: src')
    ultimately have xe: "x \<noteq> e" "x \<noteq> tw" by auto
    show "\<exists>t. twin_of G' x = Some t \<and> twin_of G' t = Some x"
    proof (cases "x < n")
      case True
      with live xe have "source G x \<noteq> None" by (auto simp: src')
      with sym obtain t where t: "twin_of G x = Some t" "twin_of G t = Some x"
        by (auto simp: twin_symmetry_iff)
      from old [OF t(1)] have tn: "t < n" by simp
      have "t \<noteq> e" "t \<noteq> tw" using t tw etw xe by auto
      with t tn True xe show ?thesis by (auto simp: tw')
    next
      case False
      with live fresh have "x = n \<or> x = Suc n \<or> x = Suc (Suc n) \<or> x = Suc (Suc (Suc n))"
        by (auto simp: src' split: if_splits)
      with etw show ?thesis by (auto simp: tw')
    qed
  qed
qed

lemma add_vertex_edges: "edges (snd (snd (add_vertex c G))) = edges G"
  by (simp add: add_vertex_def VertexProps_new_def VertexProps_init_def)

lemma add_face_edges: "edges (snd (add_face G)) = edges G"
  by (simp add: add_face_def)

lemma add_vertex_eq:
  "add_vertex c G =
     (length (vertices G), c + 1,
      G\<lparr>vertices := vertices G @ [\<lparr>position = Point_default, index = c\<rparr>]\<rparr>)"
  by (simp add: add_vertex_def VertexProps_new_def VertexProps_init_def)

lemma split_edge_Some:
  assumes "split_edge c e (cnt, G) = Some (cnt', G')"
  shows "\<exists>s t ps pt pc G1 G3.
    source G e = Some s \<and> target G e = Some t \<and> get_position G s = Some ps
    \<and> get_position G t = Some pt \<and> get_position G c = Some pc
    \<and> set_position c (Point_add pc (Point_scale (1 / 4) ps)) G = Some G1
    \<and> set_position (length (vertices G1)) (Point_scale (1 / 2) (Point_add ps pt))
          (G1\<lparr>vertices := vertices G1 @ [\<lparr>position = Point_default, index = cnt\<rparr>]\<rparr>) = Some G3
    \<and> insert_vertex_in_edge (length (vertices G1)) e G3 = Some G' \<and> cnt' = cnt + 1"
  using assms unfolding split_edge_def add_vertex_eq
  by (simp add: bind_eq_Some_conv) blast

lemma split_edge_twin_symmetry:
  assumes "twin_symmetry G" and "split_edge c e (cnt, G) = Some (cnt', G')"
  shows "twin_symmetry G'"
proof -
  from split_edge_Some [OF assms(2)] obtain p q G1 G3 where
    1: "set_position c p G = Some G1" and
    3: "set_position (length (vertices G1)) q
          (G1\<lparr>vertices := vertices G1 @ [\<lparr>position = Point_default, index = cnt\<rparr>]\<rparr>) = Some G3" and
    4: "insert_vertex_in_edge (length (vertices G1)) e G3 = Some G'"
    by blast
  from set_position_length [OF 1] have "edges G1 = edges G" by simp
  moreover from set_position_length [OF 3] have "edges G3 = edges G1" by simp
  ultimately have "edges G3 = edges G" by simp
  with assms(1) twin_invariants_cong(1) [of G3 G] have "twin_symmetry G3" by simp
  then show ?thesis using 4 by (rule insert_vertex_in_edge_twin_symmetry)
qed

lemma split_edges_twin_symmetry:
  "twin_symmetry G \<Longrightarrow> split_edges c es (cnt, G) = Some (cnt', G') \<Longrightarrow> twin_symmetry G'"
proof (induction es arbitrary: cnt G)
  case Nil
  then show ?case by simp
next
  case (Cons e es)
  from Cons.prems(2) obtain cnt1 G1 where
    1: "split_edge c e (cnt, G) = Some (cnt1, G1)" and
    2: "split_edges c es (cnt1, G1) = Some (cnt', G')"
    by (auto simp: bind_eq_Some_conv)
  from split_edge_twin_symmetry [OF Cons.prems(1) 1] 2 show ?case by (rule Cons.IH)
qed

lemma twin_edges_Some:
  assumes "twin_edges e1 e2 G = Some G'"
  obtains p1 p2 G1 where "edge_props G e1 = Some p1" "edge_props G e2 = Some p2"
    "twin p1 = None \<or> twin p1 = Some e2" "twin p2 = None \<or> twin p2 = Some e1"
    "set_twin e1 (Some e2) G = Some G1" "set_twin e2 (Some e1) G1 = Some G'"
proof (cases "edge_props G e1")
  case None
  with assms show ?thesis by (simp add: twin_edges_def)
next
  case p1: (Some p1)
  show ?thesis
  proof (cases "edge_props G e2")
    case None
    with assms p1 show ?thesis by (simp add: twin_edges_def)
  next
    case p2: (Some p2)
    show ?thesis
    proof (cases "(twin p1 = None \<or> twin p1 = Some e2) \<and> (twin p2 = None \<or> twin p2 = Some e1)")
      case False
      with assms p1 p2 show ?thesis by (simp add: twin_edges_def)
    next
      case True
      with assms p1 p2 have
        "(set_twin e1 (Some e2) G \<bind> set_twin e2 (Some e1)) = Some G'"
        by (simp add: twin_edges_def)
      then obtain G1 where "set_twin e1 (Some e2) G = Some G1" "set_twin e2 (Some e1) G1 = Some G'"
        by (cases "set_twin e1 (Some e2) G") simp_all
      with p1 p2 True that show ?thesis by blast
    qed
  qed
qed

lemma twin_edges_observers:
  assumes "twin_edges e1 e2 G = Some G'"
  shows "twin_of G' = (twin_of G)(e1 := Some e2, e2 := Some e1)"
    and "twin_of G e1 = None \<or> twin_of G e1 = Some e2"
    and "twin_of G e2 = None \<or> twin_of G e2 = Some e1"
proof -
  from assms obtain p1 p2 G1 where
    p: "edge_props G e1 = Some p1" "edge_props G e2 = Some p2" and
    c: "twin p1 = None \<or> twin p1 = Some e2" "twin p2 = None \<or> twin p2 = Some e1" and
    1: "set_twin e1 (Some e2) G = Some G1" and 2: "set_twin e2 (Some e1) G1 = Some G'"
    by (rule twin_edges_Some)
  from set_twin_observers [OF 1] have a: "twin_of G1 = (twin_of G)(e1 := Some e2)" by blast
  from set_twin_observers [OF 2] have b: "twin_of G' = (twin_of G1)(e2 := Some e1)" by blast
  from a b show "twin_of G' = (twin_of G)(e1 := Some e2, e2 := Some e1)" by simp
  from p(1) c(1) show "twin_of G e1 = None \<or> twin_of G e1 = Some e2"
    by (simp add: twin_of_def)
  from p(2) c(2) show "twin_of G e2 = None \<or> twin_of G e2 = Some e1"
    by (simp add: twin_of_def)
qed

lemma twin_edges_mutual:
  assumes m: "twin_links_mutual G" and t: "twin_edges e1 e2 G = Some G'"
  shows "twin_links_mutual G'"
  unfolding twin_links_mutual_iff
proof (intro allI impI)
  fix x t' assume a: "twin_of G' x = Some t'"
  have o1: "\<And>y. twin_of G' y = (if y = e2 then Some e1 else if y = e1 then Some e2 else twin_of G y)"
    by (simp add: twin_edges_observers(1) [OF t])
  note o2 = twin_edges_observers(2) [OF t]
  note o3 = twin_edges_observers(3) [OF t]
  from m have mm: "\<And>x t. twin_of G x = Some t \<Longrightarrow> twin_of G t = Some x"
    unfolding twin_links_mutual_iff by blast
  consider "x = e2" | "x \<noteq> e2" "x = e1" | "x \<noteq> e2" "x \<noteq> e1" by blast
  then show "twin_of G' t' = Some x"
  proof cases
    case 1
    with a have "t' = e1" by (simp add: o1)
    with 1 show ?thesis by (simp add: o1)
  next
    case 2
    with a have "t' = e2" by (simp add: o1)
    with 2 show ?thesis by (simp add: o1)
  next
    case 3
    with a have b: "twin_of G x = Some t'" by (simp add: o1)
    from mm [OF b] have c: "twin_of G t' = Some x" .
    have "t' \<noteq> e1"
    proof
      assume "t' = e1"
      with c have "twin_of G e1 = Some x" by simp
      with o2 3 show False by simp
    qed
    moreover have "t' \<noteq> e2"
    proof
      assume "t' = e2"
      with c have "twin_of G e2 = Some x" by simp
      with o3 3 show False by simp
    qed
    ultimately show ?thesis using c by (simp add: o1)
  qed
qed

lemma twin_links_mutual_cong:
  assumes "twin_of G' = twin_of G" and "twin_links_mutual G"
  shows "twin_links_mutual G'"
  using assms(2) unfolding twin_links_mutual_iff assms(1) .

lemma split_edges_quad:
  "split_edges 4 [0, 2, 4, 6] (cnt + 5, snd (snd (add_vertex (cnt + 4) (quad_graph f cnt))))
     = Some (cnt + 9, built_graph f cnt)"
  by (simp add: quad_graph_def built_graph_def split_edge_def
        insert_vertex_in_edge_def previous_edge_def cycle_from_numeral graph_defs)

lemma twin_symmetry_edges:
  "edges G' = edges G \<Longrightarrow> twin_symmetry G \<Longrightarrow> twin_symmetry G'"
  using twin_invariants_cong(1) [of G' G] by blast

lemma twin_links_mutual_edges:
  "edges G' = edges G \<Longrightarrow> twin_links_mutual G \<Longrightarrow> twin_links_mutual G'"
  using twin_invariants_cong(2) [of G' G] by blast

subsection \<open>The position of the center\<close>

lemma Point_sum_coords:
  "Point_sum ps = Point (sum_list (map Point_x ps)) (sum_list (map Point_y ps))
     (sum_list (map Point_z ps))"
proof (induction ps)
  case Nil
  show ?case by simp
next
  case (Cons p ps)
  then show ?case by (cases p) simp
qed

lemma sum_list_map_mset:
  fixes h :: "'a \<Rightarrow> real"
  assumes "mset xs = mset ys"
  shows "sum_list (map h xs) = sum_list (map h ys)"
proof -
  have "sum_list (map h xs) = sum_mset (image_mset h (mset xs))"
    by (simp add: sum_mset_sum_list [symmetric])
  also have "\<dots> = sum_mset (image_mset h (mset ys))" by (simp add: assms)
  also have "\<dots> = sum_list (map h ys)" by (simp add: sum_mset_sum_list [symmetric])
  finally show ?thesis .
qed

lemma Point_sum_mset: "mset ps = mset qs \<Longrightarrow> Point_sum ps = Point_sum qs"
  by (simp add: Point_sum_coords sum_list_map_mset [of ps qs])

lemma Point_add_assoc: "Point_add (Point_add p q) r = Point_add p (Point_add q r)"
  by (cases p; cases q; cases r) simp

lemma Point_scale_add:
  "Point_scale k (Point_add p q) = Point_add (Point_scale k p) (Point_scale k q)"
  by (cases p; cases q) (simp add: algebra_simps)

lemma Point_add_zero: "Point_add p (Point 0 0 0) = p" "Point_add (Point 0 0 0) p = p"
  by (cases p, simp)+

lemma Point_scale_zero: "Point_scale k (Point 0 0 0) = Point 0 0 0"
  by simp

lemma foldl_quarter_sum:
  "foldl (\<lambda>a p. Point_add a (Point_scale k p)) a0 ps
     = Point_add a0 (Point_scale k (Point_sum ps))"
proof (induction ps arbitrary: a0)
  case Nil
  show ?case by (simp add: Point_add_zero)
next
  case (Cons p ps)
  show ?case by (simp add: Cons.IH Point_add_assoc Point_scale_add)
qed

lemma get_position_Some: "get_position G v = Some p \<Longrightarrow> v < length (vertices G)"
  by (auto simp: get_position_def lookup_def split: if_splits)

lemma set_position_observers:
  assumes "set_position v p G = Some G'"
  shows "get_position G' = (get_position G)(v := Some p)" "edges G' = edges G"
    "length (vertices G') = length (vertices G)" "v < length (vertices G)"
  using assms
  by (auto simp: set_position_def get_position_def lookup_def fun_eq_iff nth_list_update
           split: if_splits)

lemma get_position_append:
  "get_position (G\<lparr>vertices := vertices G @ [vp]\<rparr>) =
     (get_position G)(length (vertices G) := Some (position vp))"
  by (auto simp: get_position_def lookup_def fun_eq_iff nth_append)

lemma get_position_cong: "vertices G' = vertices G \<Longrightarrow> get_position G' = get_position G"
  by (simp add: get_position_def fun_eq_iff)

lemma corner_Some:
  "corner G e = Some p \<longleftrightarrow> (\<exists>s. source G e = Some s \<and> get_position G s = Some p)"
  by (simp add: corner_def bind_eq_Some_conv)

lemma split_edge_keeps_corners:
  assumes inv: "keeps_corners G0 c G"
    and se: "split_edge c e (cnt, G) = Some (cnt', G')"
    and co: "corner G0 e = Some p"
    and cc: "length (vertices G0) \<le> c"
    and pc: "get_position G c = Some pc"
  shows "keeps_corners G0 c G'"
    and "get_position G' c = Some (Point_add pc (Point_scale (1 / 4) p))"
proof -
  from split_edge_Some [OF se] obtain s t ps pt pc' G1 G3 where
    s: "source G e = Some s" and ps: "get_position G s = Some ps" and
    pc': "get_position G c = Some pc'" and
    1: "set_position c (Point_add pc' (Point_scale (1 / 4) ps)) G = Some G1" and
    3: "set_position (length (vertices G1)) (Point_scale (1 / 2) (Point_add ps pt))
          (G1\<lparr>vertices := vertices G1 @ [\<lparr>position = Point_default, index = cnt\<rparr>]\<rparr>) = Some G3" and
    4: "insert_vertex_in_edge (length (vertices G1)) e G3 = Some G'"
    by blast
  from co obtain s0 where s0: "source G0 e = Some s0" "get_position G0 s0 = Some p"
    by (auto simp: corner_Some)
  from s0(1) have e0: "e < length (edges G0)" by (rule source_live)
  from inv e0 s s0(1) have ss: "s = s0" by (auto simp: keeps_corners_def)
  from s0(2) have "s0 < length (vertices G0)" by (rule get_position_Some)
  with cc have sc: "s0 \<noteq> c" by simp
  with inv s0(2) have "get_position G s0 = Some p" by (simp add: keeps_corners_def)
  with ps ss have pp: "ps = p" by simp
  from pc pc' have pcc: "pc' = pc" by simp
  note o1 = set_position_observers [OF 1]
  note o3 = set_position_observers [OF 3]
  define v where "v = length (vertices G1)"
  have vG: "v = length (vertices G)" by (simp add: v_def o1(3))
  from o1(4) have cv: "c < v" by (simp add: vG)
  from insert_vertex_in_edge_observers [OF 4] have vs: "vertices G' = vertices G3" by blast
  have gp3: "get_position G3 = (get_position G)
      (c := Some (Point_add pc (Point_scale (1 / 4) p)), v := Some (Point_scale (1 / 2) (Point_add ps pt)))"
    using o3(1) o1(1) by (simp add: get_position_append v_def pcc pp fun_eq_iff)
  have gp: "get_position G' = (get_position G)
      (c := Some (Point_add pc (Point_scale (1 / 4) p)), v := Some (Point_scale (1 / 2) (Point_add ps pt)))"
    using get_position_cong [OF vs] gp3 by simp
  from gp cv show "get_position G' c = Some (Point_add pc (Point_scale (1 / 4) p))" by simp
  have e3: "edges G3 = edges G" using o3(2) o1(2) by simp
  then have src3: "source G3 = source G" by (rule observers_cong(1))
  from insert_vertex_in_edge_observers [OF 4] obtain tw s1 s2 where
    src': "source G' = (source G3)(length (edges G3) := Some s1, Suc (length (edges G3)) := Some (length (vertices G1)),
           Suc (Suc (length (edges G3))) := Some s2, Suc (Suc (Suc (length (edges G3)))) := Some (length (vertices G1)),
           tw := None, e := None)"
    and len': "length (edges G') = length (edges G3) + 4"
    by blast
  from inv have le: "length (edges G0) \<le> length (edges G)"
    and old: "\<And>x. x < length (edges G0) \<Longrightarrow> source G x = None \<or> source G x = source G0 x"
    and pos: "\<And>v p. get_position G0 v = Some p \<Longrightarrow> v \<noteq> c \<Longrightarrow> get_position G v = Some p"
    by (simp_all add: keeps_corners_def)
  show "keeps_corners G0 c G'"
    unfolding keeps_corners_def
  proof (intro conjI allI impI)
    show "length (edges G0) \<le> length (edges G')" using le len' e3 by simp
  next
    fix x assume x: "x < length (edges G0)"
    with le have "x < length (edges G)" by simp
    then have "source G' x = None \<or> source G' x = source G x"
      by (simp add: src' e3 src3)
    with old [OF x] show "source G' x = None \<or> source G' x = source G0 x" by auto
  next
    fix w q assume w: "get_position G0 w = Some q" "w \<noteq> c"
    from pos [OF w] have g: "get_position G w = Some q" .
    then have "w < v" unfolding vG by (rule get_position_Some)
    with g w(2) show "get_position G' w = Some q" by (simp add: gp)
  qed
qed

lemma split_edges_center:
  assumes "keeps_corners G0 c G"
    and "split_edges c es (cnt, G) = Some (cnt', G')"
    and "map (corner G0) es = map Some ps"
    and "length (vertices G0) \<le> c"
    and "get_position G c = Some pc"
  shows "get_position G' c = Some (foldl (\<lambda>a p. Point_add a (Point_scale (1 / 4) p)) pc ps)"
  using assms
proof (induction es arbitrary: ps cnt G pc)
  case Nil
  then show ?case by simp
next
  case (Cons e es)
  from Cons.prems(3) obtain p ps' where ps: "ps = p # ps'" "corner G0 e = Some p"
    "map (corner G0) es = map Some ps'"
    by (cases ps) auto
  from Cons.prems(2) obtain cnt1 G1 where
    1: "split_edge c e (cnt, G) = Some (cnt1, G1)" and
    2: "split_edges c es (cnt1, G1) = Some (cnt', G')"
    by (auto simp: bind_eq_Some_conv)
  note step = split_edge_keeps_corners [OF Cons.prems(1) 1 ps(2) Cons.prems(4) Cons.prems(5)]
  from Cons.IH [OF step(1) 2 ps(3) Cons.prems(4) step(2)] show ?case
    by (simp add: ps(1))
qed

lemma keeps_corners_add_vertex:
  "keeps_corners G (length (vertices G)) (G\<lparr>vertices := vertices G @ [vp]\<rparr>)"
proof -
  have "source (G\<lparr>vertices := vertices G @ [vp]\<rparr>) = source G"
    by (rule observers_cong(1)) simp
  then show ?thesis
    by (auto simp: keeps_corners_def get_position_append dest: get_position_Some)
qed

lemma split_edges_average:
  assumes co: "map (corner G) es = map Some ps"
    and se: "split_edges (length (vertices G)) es (snd (add_vertex cnt G)) = Some (cnt', G')"
  shows "get_position G' (length (vertices G)) = Some (Point_scale (1 / 4) (Point_sum ps))"
proof -
  let ?Gc = "G\<lparr>vertices := vertices G @ [\<lparr>position = Point_default, index = cnt\<rparr>]\<rparr>"
  from se have se': "split_edges (length (vertices G)) es (cnt + 1, ?Gc) = Some (cnt', G')"
    by (simp add: add_vertex_eq)
  have pc: "get_position ?Gc (length (vertices G)) = Some (Point 0 0 0)"
    by (simp add: get_position_append Point_default_def)
  from split_edges_center [OF keeps_corners_add_vertex se' co _ pc]
  show ?thesis
    by (simp add: foldl_quarter_sum Point_add_zero)
qed

lemma subdivide_face_center:
  assumes fe: "face_edges G f = Some es"
    and co: "map (corner G) es = map Some ps"
    and sf: "subdivide_face f (cnt, G) = Some (cnt', G')"
  shows "get_position G' (num_vertices G) = Some (Point_scale (1 / 4) (Point_sum ps))"
proof -
  from sf fe have
    se: "split_edges (length (vertices G)) es (snd (add_vertex cnt G)) = Some (cnt', G')"
    by (auto simp: subdivide_face_def add_vertex_eq bind_eq_Some_conv split: if_splits)
  from split_edges_average [OF co se] show ?thesis by (simp add: num_vertices_def)
qed

lemma split_edges_center_any_order:
  assumes co: "map (corner G) es = map Some ps"
    and m: "mset es' = mset es"
    and se': "split_edges (num_vertices G) es' (snd (add_vertex cnt G)) = Some (k, G'')"
  shows "get_position G'' (num_vertices G) = Some (Point_scale (1 / 4) (Point_sum ps))"
proof -
  define h where "h = (\<lambda>e. the (corner G e))"
  from co have len: "length es = length ps"
    using map_eq_imp_length_eq by blast
  have all: "\<And>e. e \<in> set es \<Longrightarrow> corner G e = Some (h e)"
  proof -
    fix e assume "e \<in> set es"
    then obtain i where i: "i < length es" "es ! i = e" by (auto simp: in_set_conv_nth)
    with co have "map (corner G) es ! i = map Some ps ! i" by simp
    with i len have "corner G e = Some (ps ! i)" by simp
    then show "corner G e = Some (h e)" by (simp add: h_def)
  qed
  then have "map (corner G) es = map Some (map h es)" by simp
  with co have "map Some ps = map Some (map h es)" by simp
  then have ps_eq: "ps = map h es" by (rule map_injective) simp
  from m have "set es' = set es" by (rule mset_eq_setD)
  with all have "map (corner G) es' = map Some (map h es')" by simp
  from split_edges_average [OF this se' [unfolded num_vertices_def]]
  have "get_position G'' (length (vertices G))
          = Some (Point_scale (1 / 4) (Point_sum (map h es')))" .
  moreover from m have "mset (map h es') = mset (map h es)" by simp
  then have "Point_sum (map h es') = Point_sum (map h es)" by (rule Point_sum_mset)
  ultimately show ?thesis using ps_eq by (simp add: num_vertices_def)
qed

lemma quad_mesh_center:
  "\<exists>cnt' G'. subdivide_face 1 (cnt, quad_mesh va vb vc vd) = Some (cnt', G')
     \<and> get_position G' 4
         = Some (Point_scale (1 / 4) (Point_sum [position va, position vb, position vc, position vd]))"
proof -
  from quad_mesh_pass_returns [of cnt va vb vc vd] obtain cnt' G' where
    sf: "subdivide_face 1 (cnt, quad_mesh va vb vc vd) = Some (cnt', G')" by auto
  from subdivide_face_center [OF quad_mesh_corners(1) quad_mesh_corners(2) sf]
  have "get_position G' 4
         = Some (Point_scale (1 / 4) (Point_sum [position va, position vb, position vc, position vd]))"
    unfolding quad_mesh_corners(3) .
  with sf show ?thesis by blast
qed

lemma quad_mesh_center_any_order:
  "list_all (\<lambda>es'. \<exists>k G''.
       split_edges 4 es' (snd (add_vertex cnt (quad_mesh va vb vc vd))) = Some (k, G'')
       \<and> get_position G'' 4
           = Some (Point_scale (1 / 4) (Point_sum [position va, position vb, position vc, position vd])))
     boundary_orders"
  unfolding list_all_iff
proof
  fix es' assume a: "es' \<in> set boundary_orders"
  with quad_mesh_orders_return [of cnt va vb vc vd] obtain k G'' where
    se: "split_edges 4 es' (snd (add_vertex cnt (quad_mesh va vb vc vd))) = Some (k, G'')"
    by (auto simp: list_all_iff)
  from a boundary_orders_mset have m: "mset es' = mset [0, 2, 4, 6]"
    by (auto simp: list_all_iff)
  from split_edges_center_any_order [OF quad_mesh_corners(2) m, unfolded quad_mesh_corners(3), OF se]
  have "get_position G'' 4
           = Some (Point_scale (1 / 4) (Point_sum [position va, position vb, position vc, position vd]))" .
  with se show "\<exists>k G''.
       split_edges 4 es' (snd (add_vertex cnt (quad_mesh va vb vc vd))) = Some (k, G'')
       \<and> get_position G'' 4
           = Some (Point_scale (1 / 4) (Point_sum [position va, position vb, position vc, position vd]))"
    by blast
qed

lemma init_quad_quad_mesh:
  "\<exists>s. init_quad (cnt, new_surface f) = Some (cnt + 4, s)
     \<and> g s = quad_mesh \<lparr>position = Point f f 0, index = cnt\<rparr>
               \<lparr>position = Point (- f) f 0, index = cnt + 1\<rparr>
               \<lparr>position = Point f (- f) 0, index = cnt + 2\<rparr>
               \<lparr>position = Point 0 0 0, index = cnt + 3\<rparr>"
  by (simp add: init_quad_result quad_graph_quad_mesh)

section \<open>The claims\<close>

subsection \<open>C1: what subdivide_face does to a face\<close>

text \<open>
  C1: for every bounded face that is subdivided, the step connects the new center vertex
  to each of the 4 midpoint vertices, partitions the quad into 4 new bounded quad faces,
  assigns new face ids to them and retires the original face id. \<open>subdivide_face\<close> is
  unfinished: it adds the center ("average of four corners") and the four midpoints, and
  after the loop that splits the edges it only prints the half-edges of the face. For the
  face of the bounding quad with \<open>far = 1\<close>, the faces before and after the step have the
  ids \<open>0, 1\<close>, no half-edge starts or ends at the center (vertex 4), and face 1 is one face
  still, bounded by 8 half-edges.
\<close>

theorem C1_center_unconnected_no_new_face:
  "(init_quad (0, new_surface 1) \<bind> (\<lambda>(cnt, s).
      subdivide_face 1 (cnt, g s) \<bind> (\<lambda>(cnt', G').
        Some (map idx (faces (g s)), map idx (faces G'), incident_edges G' 4, face_edges G' 1))))
   = Some ([0, 1], [0, 1], [], Some [20, 21, 8, 9, 12, 13, 16, 17])"
  using subdivide_face_quad [of 0 1]
  by (simp add: init_quad_result quad_graph_facts [simplified] built_graph_facts [simplified])

subsection \<open>C2: the center is the average of the original corners\<close>

text \<open>
  C2. For every face subdivision pass, the position of the center vertex is the average of
  the 4 original corner positions of the face, as they were before any edge of the face was
  mutated in the pass; in particular it does not depend on the order in which the boundary
  edges are split, and no midpoint created during the pass enters it.

  The theorem has two parts. The first is about the bounding quad with any four vertex
  records \<open>va, vb, vc, vd\<close> as corners and any value of the vertex counter, which covers
  every pass the constructor runs (fifth conjunct) and the square with its fourth corner in
  place: the pass returns, and the center (vertex 4) is at a quarter of the sum of the four
  corner positions; run in any of the 24 orders of the four boundary half-edges, the loop
  returns as well, with the center at the same position. The second part is about any
  graph \<open>G\<close> and face \<open>f\<close> on which the pass returns: with \<open>es\<close> the boundary of the face in
  \<open>G\<close> and \<open>ps\<close> the positions in \<open>G\<close> of the sources of \<open>es\<close>, the center
  (\<open>num_vertices G\<close>, the vertex the pass adds first) is at a quarter of the sum of \<open>ps\<close>,
  and so it is after the loop has run over any permutation of \<open>es\<close>. The loop reads the
  position of a source when its turn comes, after the half-edges before it were split;
  the theorem shows that what it reads is the position in \<open>G\<close>. Positions are real
  numbers here: the rounding of \<open>double\<close> is not modelled.
\<close>

theorem C2_center_is_average_of_original_corners:
  "face_edges (quad_mesh va vb vc vd) 1 = Some [0, 2, 4, 6]
   \<and> map (corner (quad_mesh va vb vc vd)) [0, 2, 4, 6]
       = map Some [position va, position vb, position vc, position vd]
   \<and> (\<exists>cnt' G'. subdivide_face 1 (cnt, quad_mesh va vb vc vd) = Some (cnt', G')
         \<and> get_position G' 4
             = Some (Point_scale (1 / 4)
                 (Point_sum [position va, position vb, position vc, position vd])))
   \<and> list_all (\<lambda>es'. \<exists>k G''.
         split_edges 4 es' (snd (add_vertex cnt (quad_mesh va vb vc vd))) = Some (k, G'')
         \<and> get_position G'' 4
             = Some (Point_scale (1 / 4)
                 (Point_sum [position va, position vb, position vc, position vd])))
       boundary_orders
   \<and> (\<exists>s. init_quad (cnt0, new_surface far0) = Some (cnt0 + 4, s)
         \<and> g s = quad_mesh \<lparr>position = Point far0 far0 0, index = cnt0\<rparr>
                   \<lparr>position = Point (- far0) far0 0, index = cnt0 + 1\<rparr>
                   \<lparr>position = Point far0 (- far0) 0, index = cnt0 + 2\<rparr>
                   \<lparr>position = Point 0 0 0, index = cnt0 + 3\<rparr>)
   \<and> (face_edges G f = Some es \<longrightarrow> map (corner G) es = map Some ps \<longrightarrow>
        subdivide_face f (c, G) = Some (c', G') \<longrightarrow>
          get_position G' (num_vertices G) = Some (Point_scale (1 / 4) (Point_sum ps))
          \<and> (\<forall>es' k G''. mset es' = mset es \<longrightarrow>
                split_edges (num_vertices G) es' (snd (add_vertex c G)) = Some (k, G'') \<longrightarrow>
                get_position G'' (num_vertices G) = get_position G' (num_vertices G)))"
proof (intro conjI impI allI)
  show "face_edges (quad_mesh va vb vc vd) 1 = Some [0, 2, 4, 6]"
    by (rule quad_mesh_corners(1))
  show "map (corner (quad_mesh va vb vc vd)) [0, 2, 4, 6]
       = map Some [position va, position vb, position vc, position vd]"
    by (rule quad_mesh_corners(2))
  show "\<exists>cnt' G'. subdivide_face 1 (cnt, quad_mesh va vb vc vd) = Some (cnt', G')
         \<and> get_position G' 4
             = Some (Point_scale (1 / 4)
                 (Point_sum [position va, position vb, position vc, position vd]))"
    by (rule quad_mesh_center)
  show "list_all (\<lambda>es'. \<exists>k G''.
         split_edges 4 es' (snd (add_vertex cnt (quad_mesh va vb vc vd))) = Some (k, G'')
         \<and> get_position G'' 4
             = Some (Point_scale (1 / 4)
                 (Point_sum [position va, position vb, position vc, position vd])))
       boundary_orders"
    by (rule quad_mesh_center_any_order)
  show "\<exists>s. init_quad (cnt0, new_surface far0) = Some (cnt0 + 4, s)
         \<and> g s = quad_mesh \<lparr>position = Point far0 far0 0, index = cnt0\<rparr>
                   \<lparr>position = Point (- far0) far0 0, index = cnt0 + 1\<rparr>
                   \<lparr>position = Point far0 (- far0) 0, index = cnt0 + 2\<rparr>
                   \<lparr>position = Point 0 0 0, index = cnt0 + 3\<rparr>"
    by (rule init_quad_quad_mesh)
next
  assume fe: "face_edges G f = Some es" and co: "map (corner G) es = map Some ps"
    and sf: "subdivide_face f (c, G) = Some (c', G')"
  from subdivide_face_center [OF fe co sf]
  show avg: "get_position G' (num_vertices G) = Some (Point_scale (1 / 4) (Point_sum ps))" .
  fix es' k G''
  assume m: "mset es' = mset es"
    and se': "split_edges (num_vertices G) es' (snd (add_vertex c G)) = Some (k, G'')"
  from split_edges_center_any_order [OF co m se'] avg
  show "get_position G'' (num_vertices G) = get_position G' (num_vertices G)" by simp
qed

theorem C2_center_witness:
  "face_edges (quad_graph 1 0) 1 = Some [0, 2, 4, 6]
   \<and> map (corner (quad_graph 1 0)) [0, 2, 4, 6]
       = map Some [Point 1 1 0, Point (- 1) 1 0, Point 1 (- 1) 0, Point 0 0 0]
   \<and> subdivide_face 1 (4, quad_graph 1 0) = Some (9, built_graph 1 0)
   \<and> get_position (built_graph 1 0) 4 = Some (Point (1 / 4) (1 / 4) 0)
   \<and> mset [6, 4, 2, 0] = mset [0, 2, 4, 6 :: nat]
   \<and> map_option (\<lambda>(k, G''). get_position G'' 4)
        (split_edges 4 [6, 4, 2, 0] (snd (add_vertex 4 (quad_graph 1 0))))
       = Some (Some (Point (1 / 4) (1 / 4) 0))"
proof -
  have fe: "face_edges (quad_graph 1 0) 1 = Some [0, 2, 4, 6]"
    by (rule quad_graph_facts(3))
  have co: "map (corner (quad_graph 1 0)) [0, 2, 4, 6]
       = map Some [Point 1 1 0, Point (- 1) 1 0, Point 1 (- 1) 0, Point 0 0 0]"
    by (simp add: quad_graph_def eval_defs)
  have sf: "subdivide_face 1 (4, quad_graph 1 0) = Some (9, built_graph 1 0)"
    using subdivide_face_quad [of 0 1] by simp
  have m: "mset [6, 4, 2, 0] = mset [0, 2, 4, 6 :: nat]"
    by (simp add: add_mset_commute)
  obtain k G'' where
    se: "split_edges 4 [6, 4, 2, 0] (snd (add_vertex 4 (quad_graph 1 0))) = Some (k, G'')"
  proof -
    have "split_edges 4 [6, 4, 2, 0] (snd (add_vertex 4 (quad_graph 1 0))) \<noteq> None"
      by (simp add: quad_graph_def split_edge_def insert_vertex_in_edge_def
            previous_edge_def cycle_from_numeral graph_defs)
    then show ?thesis using that by auto
  qed
  have nv: "num_vertices (quad_graph 1 0) = 4" by (rule quad_graph_facts(1))
  note gen = C2_center_is_average_of_original_corners
    [where G = "quad_graph 1 0" and f = 1 and es = "[0, 2, 4, 6]" and c = 4 and c' = 9
       and G' = "built_graph 1 0"
       and ps = "[Point 1 1 0, Point (- 1) 1 0, Point 1 (- 1) 0, Point 0 0 0]"]
  from gen fe co sf have inst:
    "get_position (built_graph 1 0) (num_vertices (quad_graph 1 0))
       = Some (Point_scale (1 / 4) (Point_sum [Point 1 1 0, Point (- 1) 1 0, Point 1 (- 1) 0, Point 0 0 0]))
     \<and> (\<forall>es' k G''. mset es' = mset [0, 2, 4, 6] \<longrightarrow>
           split_edges (num_vertices (quad_graph 1 0)) es' (snd (add_vertex 4 (quad_graph 1 0))) = Some (k, G'') \<longrightarrow>
           get_position G'' (num_vertices (quad_graph 1 0)) = get_position (built_graph 1 0) (num_vertices (quad_graph 1 0)))"
    by blast
  from inst have a: "get_position (built_graph 1 0) 4 = Some (Point (1 / 4) (1 / 4) 0)"
    unfolding nv by simp
  from inst m se have "get_position G'' 4 = get_position (built_graph 1 0) 4"
    unfolding nv by blast
  with a se fe co sf m show ?thesis by simp
qed

subsection \<open>C3: one pass, whatever the sampling\<close>

text \<open>
  C3: subdivision is applied recursively until every edge is at most \<open>min_sampling\<close> long.
  The code makes one pass and never reads \<open>min_sampling\<close>: after the build with
  \<open>far = 1\<close> and \<open>setMinSampling(0.25)\<close>, half-edge 8 (from corner \<open>a\<close> to the midpoint of
  \<open>a b\<close>) has squared length 1, so length 1, which is more than 0.25.
\<close>

theorem C3_single_pass_leaves_long_edges:
  "map_option (\<lambda>(cnt, s). (min_sampling (setMinSampling (1 / 4) s),
       edge_length_sq (g (setMinSampling (1 / 4) s)) 8))
     (CutterLocationSurface 1 0) = Some (Some (1 / 4), Some 1)"
  by (simp add: build_result built_graph_def setMinSampling_def observation_defs graph_defs)

subsection \<open>C4: the bounding quad\<close>

text \<open>
  C4: for every positive \<open>far\<close>, initialization creates four corner vertices at
  \<open>(far,far,0)\<close>, \<open>(-far,far,0)\<close>, \<open>(-far,-far,0)\<close>, \<open>(far,-far,0)\<close>, an inner and an outer
  face and the two cycles of four half-edges, pairwise twinned. The code assigns the
  fourth position to \<open>g[c]\<close> instead of \<open>g[d]\<close>: with \<open>far = 1\<close> the four vertices are at
  \<open>(1,1,0)\<close>, \<open>(-1,1,0)\<close>, \<open>(1,-1,0)\<close> and at the default position \<open>(0,0,0)\<close>, and no
  vertex is at \<open>(-1,-1,0)\<close>. The rest is as the claim says: the inner face 1 is bounded
  by the half-edges 0, 2, 4, 6 from \<open>a\<close> through \<open>b\<close>, \<open>c\<close>, \<open>d\<close>, the outer face 0 by
  their twins 1, 7, 5, 3 in the opposite direction.
\<close>

theorem C4_fourth_corner_never_placed:
  "map_option (\<lambda>(cnt, s). (map position (vertices (g s)),
       face_edges (g s) 1, map (source (g s)) [0, 2, 4, 6],
       face_edges (g s) 0, map (twin_of (g s)) [0, 1, 2, 3, 4, 5, 6, 7], out_face s))
     (init_quad (0, new_surface 1))
   = Some ([Point 1 1 0, Point (- 1) 1 0, Point 1 (- 1) 0, Point 0 0 0],
       Some [0, 2, 4, 6], map Some [0, 1, 2, 3],
       Some [1, 7, 5, 3], map Some [1, 0, 3, 2, 5, 4, 7, 6], Some 0)"
  by (simp add: init_quad_result) (simp add: quad_graph_def eval_defs)

subsection \<open>C5: the scenario far = 1.0, min_sampling = 0.5\<close>

text \<open>
  C5: the build with \<open>far = 1.0\<close> and \<open>min_sampling = 0.5\<close> has 9 vertices, 4 bounded
  faces, each a unit square, and 1 outer face. In the code that is the constructor with
  \<open>far = 1.0\<close> followed by \<open>setMinSampling(0.5)\<close>. The mesh it builds has 9 vertices and
  1 outer face, but 1 bounded face, not 4: \<open>subdivide_face\<close> never creates a face.
\<close>

theorem C5_one_bounded_face:
  "map_option (\<lambda>(cnt, s). (num_vertices (g (setMinSampling (1 / 2) s)),
       length (bounded_faces (setMinSampling (1 / 2) s)),
       length (outer_faces (setMinSampling (1 / 2) s))))
     (CutterLocationSurface 1 0) = Some (9, 1, 1)"
  by (simp add: build_result built_graph_def setMinSampling_def observation_defs)

subsection \<open>C6: construction does not validate its parameter\<close>

text \<open>
  C6, as stated: for every non-positive configuration parameter (\<open>far \<le> 0\<close> or
  \<open>min_sampling \<le> 0\<close>) construction fails fast and the configuration is rejected.
  The code has no check of either: the constructor stores \<open>far\<close> and calls \<open>init\<close>, and
  \<open>min_sampling\<close> is not a parameter of construction at all. With \<open>far = -1\<close> the
  constructor returns a mesh of 9 vertices, and \<open>setMinSampling(-0.5)\<close> stores \<open>-0.5\<close>.
\<close>

theorem C6_negative_far_accepted:
  "map_option (\<lambda>(cnt, s). (far s, num_vertices (g s), min_sampling (setMinSampling (- 1 / 2) s)))
     (CutterLocationSurface (- 1) 0) = Some (- 1, 9, Some (- 1 / 2))"
  by (simp add: build_result built_graph_def num_vertices_def setMinSampling_def)

text \<open>
  C6, amended: construction validates nothing. For every \<open>far\<close>, positive or not, and
  every value of the vertex counter, the constructor returns a surface with that \<open>far\<close>,
  with \<open>min_sampling\<close> not set, and with a mesh of 9 vertices, 2 faces and 16 half-edges;
  \<open>setMinSampling\<close> stores any value it is given.
\<close>

theorem C6_construction_never_rejects:
  "\<exists>s. CutterLocationSurface f cnt = Some (cnt + 9, s) \<and> far s = f \<and> min_sampling s = None
       \<and> num_vertices (g s) = 9 \<and> num_faces (g s) = 2 \<and> num_edges (g s) = 16
       \<and> (\<forall>m. min_sampling (setMinSampling m s) = Some m)"
  by (simp add: build_result built_graph_def num_vertices_def num_faces_def num_edges_def
        setMinSampling_def)

subsection \<open>C7: twin symmetry\<close>

text \<open>
  C7, as stated: for every half-edge \<open>e\<close> of a built mesh \<open>twin(twin(e)) == e\<close>, and this
  holds after every mutation performed during initialization and subdivision. \<open>add_edge\<close>
  creates a half-edge without a twin, and \<open>init\<close> adds its eight half-edges before it
  twins any: after the first \<open>add_edge\<close> of \<open>init\<close> (here with \<open>far = 1\<close>), half-edge 0
  exists and has no twin, so twin symmetry does not hold; only the weaker invariant does,
  that a twin link that is set is mutual.
\<close>

theorem C7_no_twin_after_add_edge:
  "do {
     let (a, cnt, G) = add_vertex 0 empty_graph;
     G \<leftarrow> set_position a (Point 1 1 0) G;
     let (b, cnt, G) = add_vertex cnt G;
     G \<leftarrow> set_position b (Point (- 1) 1 0) G;
     let (c, cnt, G) = add_vertex cnt G;
     G \<leftarrow> set_position c (Point (- 1) (- 1) 0) G;
     let (d, cnt, G) = add_vertex cnt G;
     G \<leftarrow> set_position c (Point 1 (- 1) 0) G;
     let (f_outer, G) = add_face G;
     let (f_inner, G) = add_face G;
     (e1, G) \<leftarrow> add_edge a b G;
     Some (live_edges G, twin_of G e1, twin_symmetry G, twin_links_mutual G)
   } = Some ([0], None, False, True)"
  by (simp add: empty_graph_def eval_defs)

text \<open>
  C7, amended: for every half-edge \<open>e\<close> of a built mesh \<open>twin(twin(e)) == e\<close>; the same
  holds of the bounding quad as \<open>init\<close> hands it to \<open>subdivide\<close>, and every mutation of the
  subdivision (\<open>add_vertex\<close>, the assignment of a position, \<open>insert_vertex_in_edge\<close>,
  hence every round of the loop of \<open>subdivide_face\<close>) keeps it. During initialization,
  between \<open>add_edge\<close> and \<open>twin_edges\<close>, half-edges have no twin; there every mutation of
  \<open>init\<close> keeps the weaker invariant that a twin link that is set is mutual, which holds
  of the empty graph.
\<close>

theorem C7_twin_symmetry_once_twinned:
  "(\<exists>s. init_quad (cnt, new_surface f) = Some (cnt + 4, s) \<and> twin_symmetry (g s))
   \<and> (\<exists>s. CutterLocationSurface f cnt = Some (cnt + 9, s) \<and> twin_symmetry (g s))
   \<and> (\<forall>G c. twin_symmetry G \<longrightarrow> twin_symmetry (snd (snd (add_vertex c G))))
   \<and> (\<forall>G v p G'. twin_symmetry G \<longrightarrow> set_position v p G = Some G' \<longrightarrow> twin_symmetry G')
   \<and> (\<forall>G v e G'. twin_symmetry G \<longrightarrow> insert_vertex_in_edge v e G = Some G'
         \<longrightarrow> twin_symmetry G')
   \<and> (\<forall>G c es k k' G'. twin_symmetry G \<longrightarrow> split_edges c es (k, G) = Some (k', G')
         \<longrightarrow> twin_symmetry G')
   \<and> twin_links_mutual empty_graph
   \<and> (\<forall>G c. twin_links_mutual G \<longrightarrow> twin_links_mutual (snd (snd (add_vertex c G))))
   \<and> (\<forall>G v p G'. twin_links_mutual G \<longrightarrow> set_position v p G = Some G'
         \<longrightarrow> twin_links_mutual G')
   \<and> (\<forall>G. twin_links_mutual G \<longrightarrow> twin_links_mutual (snd (add_face G)))
   \<and> (\<forall>G u v e G'. twin_links_mutual G \<longrightarrow> add_edge u v G = Some (e, G')
         \<longrightarrow> twin_links_mutual G')
   \<and> (\<forall>G fa e G'. twin_links_mutual G \<longrightarrow> set_face_edge fa e G = Some G'
         \<longrightarrow> twin_links_mutual G')
   \<and> (\<forall>G e1 e2 G'. twin_links_mutual G \<longrightarrow> twin_edges e1 e2 G = Some G'
         \<longrightarrow> twin_links_mutual G')
   \<and> (\<forall>G e fa G'. twin_links_mutual G \<longrightarrow> set_face e fa G = Some G'
         \<longrightarrow> twin_links_mutual G')
   \<and> (\<forall>G e n G'. twin_links_mutual G \<longrightarrow> set_next e n G = Some G'
         \<longrightarrow> twin_links_mutual G')"
proof (intro conjI allI impI)
  show "\<exists>s. init_quad (cnt, new_surface f) = Some (cnt + 4, s) \<and> twin_symmetry (g s)"
    by (simp add: init_quad_result quad_graph_facts)
  show "\<exists>s. CutterLocationSurface f cnt = Some (cnt + 9, s) \<and> twin_symmetry (g s)"
    by (simp add: build_result built_graph_facts)
  show "twin_links_mutual empty_graph"
    by (simp add: empty_graph_def twin_links_mutual_def live_edges_def)
next
  fix G c assume "twin_symmetry G"
  with add_vertex_edges show "twin_symmetry (snd (snd (add_vertex c G)))"
    by (rule twin_symmetry_edges)
next
  fix G c assume "twin_links_mutual G"
  with add_vertex_edges show "twin_links_mutual (snd (snd (add_vertex c G)))"
    by (rule twin_links_mutual_edges)
next
  fix G v p G' assume a: "twin_symmetry G" "set_position v p G = Some G'"
  from set_position_length [OF a(2)] have "edges G' = edges G" by simp
  then show "twin_symmetry G'" using a(1) by (rule twin_symmetry_edges)
next
  fix G v p G' assume a: "twin_links_mutual G" "set_position v p G = Some G'"
  from set_position_length [OF a(2)] have "edges G' = edges G" by simp
  then show "twin_links_mutual G'" using a(1) by (rule twin_links_mutual_edges)
next
  fix G v e G' assume "twin_symmetry G" "insert_vertex_in_edge v e G = Some G'"
  then show "twin_symmetry G'" by (rule insert_vertex_in_edge_twin_symmetry)
next
  fix G c es k k' G' assume "twin_symmetry G" "split_edges c es (k, G) = Some (k', G')"
  then show "twin_symmetry G'" by (rule split_edges_twin_symmetry)
next
  fix G assume "twin_links_mutual G"
  with add_face_edges show "twin_links_mutual (snd (add_face G))"
    by (rule twin_links_mutual_edges)
next
  fix G u v e G' assume a: "twin_links_mutual G" "add_edge u v G = Some (e, G')"
  from add_edge_observers [OF a(2)] have "twin_of G' = twin_of G" by simp
  then show "twin_links_mutual G'" using a(1) by (rule twin_links_mutual_cong)
next
  fix G fa e G' assume a: "twin_links_mutual G" "set_face_edge fa e G = Some G'"
  from set_face_edge_idx [OF a(2)] have "edges G' = edges G" by simp
  then show "twin_links_mutual G'" using a(1) by (rule twin_links_mutual_edges)
next
  fix G e1 e2 G' assume "twin_links_mutual G" "twin_edges e1 e2 G = Some G'"
  then show "twin_links_mutual G'" by (rule twin_edges_mutual)
next
  fix G e fa G' assume a: "twin_links_mutual G" "set_face e fa G = Some G'"
  from set_face_observers [OF a(2)] have "twin_of G' = twin_of G" by simp
  then show "twin_links_mutual G'" using a(1) by (rule twin_links_mutual_cong)
next
  fix G e n G' assume a: "twin_links_mutual G" "set_next e n G = Some G'"
  from set_next_observers [OF a(2)] have "twin_of G' = twin_of G" by simp
  then show "twin_links_mutual G'" using a(1) by (rule twin_links_mutual_cong)
qed

theorem C7_twin_symmetry_witness:
  "twin_symmetry (snd (snd (add_vertex 4 (quad_graph 1 0))))
   \<and> split_edges 4 [0, 2, 4, 6] (5, snd (snd (add_vertex 4 (quad_graph 1 0))))
       = Some (9, built_graph 1 0)
   \<and> twin_symmetry (built_graph 1 0)"
proof -
  have a: "twin_symmetry (snd (snd (add_vertex 4 (quad_graph 1 0))))"
    by (simp add: quad_graph_def eval_defs)
  have b: "split_edges 4 [0, 2, 4, 6] (5, snd (snd (add_vertex 4 (quad_graph 1 0))))
       = Some (9, built_graph 1 0)"
    using split_edges_quad [of 0 1] by simp
  from C7_twin_symmetry_once_twinned [of 0 1] a b
  have "twin_symmetry (built_graph 1 0)"
    by (elim conjE allE [of _ "snd (snd (add_vertex 4 (quad_graph 1 0)))"]) blast
  with a b show ?thesis by simp
qed

subsection \<open>C8: the length of a face boundary\<close>



subsection \<open>C9: the vertex counter is global\<close>

text \<open>
  C9, as stated: vertex-index assignment is scoped per mesh instance, so that each of two
  meshes gets the indices it would get when constructed alone. The counter is the static
  member \<open>VertexProps::count\<close> ("global vertex count"): of two meshes built one after the
  other from a counter at 0, the first gets the indices 0 to 8 (what a mesh built alone
  gets) and the second gets 9 to 17.
\<close>

theorem C9_second_mesh_indices_shifted:
  "(CutterLocationSurface 1 0 \<bind> (\<lambda>(cnt, s1).
      CutterLocationSurface 1 cnt \<bind> (\<lambda>(cnt', s2).
        Some (map index (vertices (g s1)), map index (vertices (g s2)), cnt'))))
   = Some ([0, 1, 2, 3, 4, 5, 6, 7, 8], [9, 10, 11, 12, 13, 14, 15, 16, 17], 18)"
  by (simp add: build_result built_graph_def)

text \<open>
  C9, amended: vertex indices come from one process-wide counter. A mesh constructed when
  the counter is \<open>cnt\<close> gets the indices \<open>cnt, ..., cnt + 8\<close> in the order its vertices are
  created and leaves the counter at \<open>cnt + 9\<close>; a second mesh constructed next gets the
  indices of the first shifted by 9, so the indices of the two do not collide, and the
  indices of a mesh depend on how many vertices were created before it.
\<close>

theorem C9_indices_follow_global_counter:
  "\<exists>s1 s2. CutterLocationSurface f1 cnt = Some (cnt + 9, s1)
     \<and> CutterLocationSurface f2 (cnt + 9) = Some (cnt + 18, s2)
     \<and> map index (vertices (g s1)) =
         [cnt, cnt + 1, cnt + 2, cnt + 3, cnt + 4, cnt + 5, cnt + 6, cnt + 7, cnt + 8]
     \<and> map index (vertices (g s2)) = map (\<lambda>i. i + 9) (map index (vertices (g s1)))
     \<and> distinct (map index (vertices (g s1)) @ map index (vertices (g s2)))"
  by (simp add: build_result built_graph_def)

subsection \<open>C10: run\<close>

text \<open>
  C10. Calling \<open>run()\<close> on a \<open>CutterLocationSurface\<close> is a no-op: it leaves the mesh
  (vertices, half-edges, faces and all their relations) and the fields \<open>min_sampling\<close>,
  \<open>far\<close> and \<open>out_face\<close> unchanged.
\<close>

theorem C10_run_is_noop:
  "run s = s \<and> g (run s) = g s \<and> min_sampling (run s) = min_sampling s
   \<and> far (run s) = far s \<and> out_face (run s) = out_face s"
  by (simp add: run_def)

end
